theory Spec2Isabelle
  imports Complex_Main
begin

section \<open>JavaScript values used by the application\<close>

text \<open>
  The amounts of the application are JavaScript \<^verbatim>\<open>bigint\<close> values: unbounded integers,
  modelled as \<^typ>\<open>int\<close>. Division of two bigints truncates towards zero and throws a
  \<^verbatim>\<open>RangeError\<close> when the divisor is zero. A nullable string (\<^verbatim>\<open>string | null\<close>, or an
  optional field) is a \<^typ>\<open>string option\<close>; a string is truthy when it is not empty.
  Strings are lists of 8-bit code units, so characters beyond Latin-1 are not
  represented.
\<close>

datatype js_error = RangeError | SyntaxError

definition bigint_div :: "int \<Rightarrow> int \<Rightarrow> js_error + int" where
  "bigint_div a b =
     (if b = 0 then Inl RangeError else Inr (sgn a * sgn b * (\<bar>a\<bar> div \<bar>b\<bar>)))"

definition truthy :: "string option \<Rightarrow> bool" where
  "truthy v = (case v of None \<Rightarrow> False | Some s \<Rightarrow> s \<noteq> [])"

definition startsWith :: "string \<Rightarrow> string \<Rightarrow> bool" where
  "startsWith s p = (take (length p) s = p)"

definition code_unit :: "char \<Rightarrow> nat" where
  "code_unit c = of_char c"

subsection \<open>\<^verbatim>\<open>BigInt(string)\<close>\<close>

text \<open>
  \<^verbatim>\<open>BigInt\<close> applied to a string follows the StringToBigInt grammar of ECMAScript: white
  space and line terminators are trimmed at both ends; the empty rest is \<^verbatim>\<open>0n\<close>; the
  rest is either decimal digits with an optional sign, or an unsigned literal with the
  prefix \<^verbatim>\<open>0x\<close>, \<^verbatim>\<open>0o\<close> or \<^verbatim>\<open>0b\<close> (in either case); anything else throws a
  \<^verbatim>\<open>SyntaxError\<close>.
\<close>

definition isWhiteSpace :: "char \<Rightarrow> bool" where
  "isWhiteSpace c = (code_unit c \<in> {9, 10, 11, 12, 13, 32, 160})"

definition trim :: "string \<Rightarrow> string" where
  "trim s = rev (dropWhile isWhiteSpace (rev (dropWhile isWhiteSpace s)))"

definition digitValue :: "char \<Rightarrow> nat option" where
  "digitValue c =
     (let n = code_unit c in
      if 48 \<le> n \<and> n \<le> 57 then Some (n - 48)
      else if 97 \<le> n \<and> n \<le> 122 then Some (n - 87)
      else if 65 \<le> n \<and> n \<le> 90 then Some (n - 55)
      else None)"

fun digitsFrom :: "nat \<Rightarrow> int \<Rightarrow> string \<Rightarrow> int option" where
  "digitsFrom base acc [] = Some acc"
| "digitsFrom base acc (c # cs) =
     (case digitValue c of
        None \<Rightarrow> None
      | Some d \<Rightarrow> if d < base then digitsFrom base (acc * int base + int d) cs else None)"

definition parseDigits :: "nat \<Rightarrow> string \<Rightarrow> int option" where
  "parseDigits base cs = (if cs = [] then None else digitsFrom base 0 cs)"

definition stringIntegerLiteral :: "string \<Rightarrow> int option" where
  "stringIntegerLiteral t =
     (if startsWith t ''0x'' \<or> startsWith t ''0X'' then parseDigits 16 (drop 2 t)
      else if startsWith t ''0o'' \<or> startsWith t ''0O'' then parseDigits 8 (drop 2 t)
      else if startsWith t ''0b'' \<or> startsWith t ''0B'' then parseDigits 2 (drop 2 t)
      else if startsWith t ''+'' then parseDigits 10 (drop 1 t)
      else if startsWith t ''-'' then map_option uminus (parseDigits 10 (drop 1 t))
      else parseDigits 10 t)"

definition BigInt :: "string \<Rightarrow> js_error + int" where
  "BigInt s =
     (let t = trim s in
      if t = [] then Inr 0
      else case stringIntegerLiteral t of None \<Rightarrow> Inl SyntaxError | Some v \<Rightarrow> Inr v)"

subsection \<open>\<^verbatim>\<open>ethers.isAddress\<close>\<close>

text \<open>
  \<^verbatim>\<open>ethers.isAddress\<close> (ethers 6) accepts a string of 40 hexadecimal digits with an
  optional \<^verbatim>\<open>0x\<close> prefix, whose checksum is only compared when letters of both cases
  occur, and an ICAP string (\<^verbatim>\<open>XE\<close>, two digits, 30 or 31 alphanumeric characters) with
  a valid checksum. The two checksum tests hash the string and are the parameter
  \<open>checksumOk\<close>; the shapes are modelled in full.
\<close>

definition ZeroAddress :: string where
  "ZeroAddress = ''0x0000000000000000000000000000000000000000''"

definition isDecDigit :: "char \<Rightarrow> bool" where
  "isDecDigit c = (48 \<le> code_unit c \<and> code_unit c \<le> 57)"

definition isUpperHex :: "char \<Rightarrow> bool" where
  "isUpperHex c = (65 \<le> code_unit c \<and> code_unit c \<le> 70)"

definition isLowerHex :: "char \<Rightarrow> bool" where
  "isLowerHex c = (97 \<le> code_unit c \<and> code_unit c \<le> 102)"

definition isHexDigit :: "char \<Rightarrow> bool" where
  "isHexDigit c = (isDecDigit c \<or> isUpperHex c \<or> isLowerHex c)"

definition isAlphaNum :: "char \<Rightarrow> bool" where
  "isAlphaNum c =
     (isDecDigit c \<or> (65 \<le> code_unit c \<and> code_unit c \<le> 90)
        \<or> (97 \<le> code_unit c \<and> code_unit c \<le> 122))"

definition hexShape :: "string \<Rightarrow> bool" where
  "hexShape s =
     (let h = (if startsWith s ''0x'' then drop 2 s else s)
      in length h = 40 \<and> list_all isHexDigit h)"

definition mixedCase :: "string \<Rightarrow> bool" where
  "mixedCase s = (list_ex isUpperHex s \<and> list_ex isLowerHex s)"

definition icapShape :: "string \<Rightarrow> bool" where
  "icapShape s =
     (startsWith s ''XE'' \<and> list_all isDecDigit (take 2 (drop 2 s))
        \<and> (length s = 34 \<or> length s = 35) \<and> list_all isAlphaNum (drop 4 s))"

definition isAddress :: "(string \<Rightarrow> bool) \<Rightarrow> string \<Rightarrow> bool" where
  "isAddress checksumOk s =
     (if hexShape s then (if mixedCase s then checksumOk s else True)
      else if icapShape s then checksumOk s
      else False)"

section \<open>AMM pricing: forward quote and inverse minimum input\<close>

text \<open>
  \<^verbatim>\<open>calculateBurnValue\<close> and \<^verbatim>\<open>calculateMinTokenAmount\<close> close over the state variables
  \<^verbatim>\<open>tokenReserve\<close> (the reserve of the token that is paid in) and \<^verbatim>\<open>bnbReserve\<close> (the
  reserve that is paid out); here they are the first two arguments. Each function is
  a guard followed by a \<^verbatim>\<open>try\<close> block whose \<^verbatim>\<open>catch\<close> returns \<^verbatim>\<open>0n\<close>; the \<^verbatim>\<open>try\<close> block is
  a function of its own that returns the exception as a value.
\<close>

definition calculateBurnValue_try :: "int \<Rightarrow> int \<Rightarrow> int \<Rightarrow> js_error + int" where
  "calculateBurnValue_try tokenReserve bnbReserve amountIn =
     (let amountInWithFee = amountIn * 997;
          numerator = amountInWithFee * bnbReserve;
          denominator = tokenReserve * 1000 + amountInWithFee
      in bigint_div numerator denominator)"

definition calculateBurnValue :: "int \<Rightarrow> int \<Rightarrow> int \<Rightarrow> int" where
  "calculateBurnValue tokenReserve bnbReserve amountIn =
     (if amountIn \<le> 0 \<or> tokenReserve \<le> 0 \<or> bnbReserve \<le> 0 then 0
      else case calculateBurnValue_try tokenReserve bnbReserve amountIn of
             Inl e \<Rightarrow> 0
           | Inr v \<Rightarrow> v)"

definition calculateMinTokenAmount_try :: "int \<Rightarrow> int \<Rightarrow> int \<Rightarrow> js_error + int" where
  "calculateMinTokenAmount_try tokenReserve bnbReserve minValue =
     (let numerator = tokenReserve * minValue * 1000;
          denominator = (bnbReserve - minValue) * 997
      in case bigint_div numerator denominator of
           Inl e \<Rightarrow> Inl e
         | Inr minAmount \<Rightarrow> bigint_div (minAmount * 101) 100)"

definition calculateMinTokenAmount :: "int \<Rightarrow> int \<Rightarrow> int \<Rightarrow> int" where
  "calculateMinTokenAmount tokenReserve bnbReserve minValue =
     (if minValue \<le> 0 \<or> tokenReserve \<le> 0 \<or> bnbReserve \<le> 0 then 0
      else case calculateMinTokenAmount_try tokenReserve bnbReserve minValue of
             Inl e \<Rightarrow> 0
           | Inr v \<Rightarrow> v)"

text \<open>
  The inverse as the specification words it: the quotient rounded up, then the 1%
  margin. It is compared with \<open>calculateMinTokenAmount\<close>, which rounds down.
\<close>

definition minAmountIn_rounded_up :: "int \<Rightarrow> int \<Rightarrow> int \<Rightarrow> int" where
  "minAmountIn_rounded_up reserveIn reserveOut minValueOut =
     (let numerator = reserveIn * minValueOut * 1000;
          denominator = (reserveOut - minValueOut) * 997;
          minAmount = (numerator + denominator - 1) div denominator
      in (minAmount * 101) div 100)"

section \<open>Reconciliation of the on-chain position with the off-chain snapshot\<close>

record loss_snapshot =
  costBasis :: int
  soldValue :: int
  dividendReceived :: int

record cached_loss =
  loss :: int
  valid :: bool

text \<open>
  The type \<^verbatim>\<open>OffchainStatus\<close>: every field is optional, the amounts are strings. The
  fields carry the prefix \<open>oc_\<close> because \<open>costBasis\<close> and \<open>soldValue\<close> are fields of the
  on-chain snapshot too.
\<close>

record offchain_status =
  oc_costBasis :: "string option"
  oc_soldValue :: "string option"
  oc_currentHoldingValue :: "string option"
  oc_lossAmount :: "string option"
  oc_canClaim :: "bool option"
  oc_minHoldingValue :: "string option"
  oc_minLossValue :: "string option"

text \<open>The state variables of the component that the reconciled figures read.\<close>

record app_state =
  lossSnapshot :: loss_snapshot
  cachedLoss :: cached_loss
  holdingValue :: int
  offchainStatus :: "offchain_status option"

definition parseWeiString :: "string option \<Rightarrow> int" where
  "parseWeiString v =
     (case v of
        None \<Rightarrow> 0
      | Some s \<Rightarrow>
          if s = [] then 0
          else case BigInt s of Inl e \<Rightarrow> 0 | Inr n \<Rightarrow> n)"

text \<open>
  The value of a string of decimal digits, read from the left: what a snapshot field
  that is a decimal string stands for. \<open>radix_value\<close> is the same for the digits of
  another base, and \<open>isDigitOf\<close> says that a character is a digit of the base.
\<close>

definition decimal_value :: "string \<Rightarrow> int" where
  "decimal_value ds = foldl (\<lambda>acc c. acc * 10 + (int (code_unit c) - 48)) 0 ds"

definition isDigitOf :: "nat \<Rightarrow> char \<Rightarrow> bool" where
  "isDigitOf base c = (case digitValue c of None \<Rightarrow> False | Some d \<Rightarrow> d < base)"

definition radix_value :: "nat \<Rightarrow> string \<Rightarrow> int" where
  "radix_value base ds =
     foldl (\<lambda>acc c. acc * int base + int (case digitValue c of None \<Rightarrow> 0 | Some d \<Rightarrow> d)) 0 ds"

text \<open>
  The reading that the specification words as: parsed as a decimal-string integer,
  with zero on parse failure. It is compared with \<open>parseWeiString\<close> below.
\<close>

definition decimal_or_zero :: "string option \<Rightarrow> int" where
  "decimal_or_zero v =
     (case v of
        None \<Rightarrow> 0
      | Some s \<Rightarrow> if s \<noteq> [] \<and> list_all isDecDigit s then decimal_value s else 0)"

definition offchainCostBasis :: "app_state \<Rightarrow> int" where
  "offchainCostBasis st =
     (case offchainStatus st of Some oc \<Rightarrow> parseWeiString (oc_costBasis oc) | None \<Rightarrow> 0)"

definition offchainSoldValue :: "app_state \<Rightarrow> int" where
  "offchainSoldValue st =
     (case offchainStatus st of Some oc \<Rightarrow> parseWeiString (oc_soldValue oc) | None \<Rightarrow> 0)"

definition offchainHoldingValue :: "app_state \<Rightarrow> int" where
  "offchainHoldingValue st =
     (case offchainStatus st of
        Some oc \<Rightarrow> parseWeiString (oc_currentHoldingValue oc) | None \<Rightarrow> 0)"

definition offchainLossAmount :: "app_state \<Rightarrow> int" where
  "offchainLossAmount st =
     (case offchainStatus st of Some oc \<Rightarrow> parseWeiString (oc_lossAmount oc) | None \<Rightarrow> 0)"

definition effectiveCostBasis :: "app_state \<Rightarrow> int" where
  "effectiveCostBasis st =
     (case offchainStatus st of
        Some oc \<Rightarrow> offchainCostBasis st | None \<Rightarrow> costBasis (lossSnapshot st))"

definition effectiveSoldValue :: "app_state \<Rightarrow> int" where
  "effectiveSoldValue st =
     (case offchainStatus st of
        Some oc \<Rightarrow> offchainSoldValue st | None \<Rightarrow> soldValue (lossSnapshot st))"

definition effectiveHoldingValue :: "app_state \<Rightarrow> int" where
  "effectiveHoldingValue st =
     (case offchainStatus st of Some oc \<Rightarrow> offchainHoldingValue st | None \<Rightarrow> holdingValue st)"

definition effectiveLossAmount :: "app_state \<Rightarrow> int" where
  "effectiveLossAmount st =
     (case offchainStatus st of
        Some oc \<Rightarrow> offchainLossAmount st
      | None \<Rightarrow> (if valid (cachedLoss st) then loss (cachedLoss st) else 0))"

subsection \<open>The writers of the reconciled state\<close>

text \<open>
  \<^verbatim>\<open>fetchOffchainStatus\<close> sets the snapshot to \<^verbatim>\<open>null\<close>; the request to the service is
  commented out. \<^verbatim>\<open>loadContractData\<close> calls it first and then, when it reaches the
  loss-dividend group, either stores what it read or, when no contract is configured,
  resets the snapshot and the cached loss (not the holding value). \<open>loss_group\<close> is what
  one run of \<^verbatim>\<open>loadContractData\<close> meets: \<open>NotReached\<close> when there is no account or an
  exception ends the run before the group stores anything, \<open>NotConfigured\<close>, or the
  values read, with the holding value only when the pool could be priced.
\<close>

definition initial_state :: app_state where
  "initial_state =
     \<lparr>lossSnapshot = \<lparr>costBasis = 0, soldValue = 0, dividendReceived = 0\<rparr>,
      cachedLoss = \<lparr>loss = 0, valid = False\<rparr>,
      holdingValue = 0,
      offchainStatus = None\<rparr>"

definition fetchOffchainStatus :: "app_state \<Rightarrow> app_state" where
  "fetchOffchainStatus st = st\<lparr>offchainStatus := None\<rparr>"

datatype loss_group = NotReached | NotConfigured | LossRead loss_snapshot cached_loss "int option"

definition loadContractData :: "loss_group \<Rightarrow> app_state \<Rightarrow> app_state" where
  "loadContractData g st =
     (let st0 = fetchOffchainStatus st in
      case g of
        NotReached \<Rightarrow> st0
      | NotConfigured \<Rightarrow>
          st0\<lparr>lossSnapshot := \<lparr>costBasis = 0, soldValue = 0, dividendReceived = 0\<rparr>,
              cachedLoss := \<lparr>loss = 0, valid = False\<rparr>\<rparr>
      | LossRead snapshot cached holding \<Rightarrow>
          st0\<lparr>lossSnapshot := snapshot,
              cachedLoss := cached,
              holdingValue := (case holding of None \<Rightarrow> holdingValue st0 | Some h \<Rightarrow> h)\<rparr>)"

datatype event = FetchOffchain | Load loss_group

fun apply_event :: "app_state \<Rightarrow> event \<Rightarrow> app_state" where
  "apply_event st FetchOffchain = fetchOffchainStatus st"
| "apply_event st (Load g) = loadContractData g st"

definition run :: "event list \<Rightarrow> app_state" where
  "run evs = foldl apply_event initial_state evs"

section \<open>Referral resolution\<close>

text \<open>
  The query parameter \<^verbatim>\<open>ref\<close> is read twice. The memo \<^verbatim>\<open>inviterFromUrl\<close> keeps it when
  \<^verbatim>\<open>ethers.isAddress\<close> accepts it and is the empty string otherwise. The mount effect
  stores it into the state variable \<^verbatim>\<open>inviter\<close> when it starts with \<^verbatim>\<open>0x\<close>; no other code
  writes \<^verbatim>\<open>inviter\<close>, and \<^verbatim>\<open>nftSubInviter\<close> has no writer at all.
\<close>

definition inviterFromUrl :: "(string \<Rightarrow> bool) \<Rightarrow> string option \<Rightarrow> string" where
  "inviterFromUrl checksumOk ref =
     (case ref of
        None \<Rightarrow> []
      | Some inviter \<Rightarrow>
          if inviter \<noteq> [] \<and> isAddress checksumOk inviter then inviter else [])"

definition urlRefEffect :: "string option \<Rightarrow> string \<Rightarrow> string" where
  "urlRefEffect ref inviter =
     (case ref of
        None \<Rightarrow> inviter
      | Some r \<Rightarrow> if r \<noteq> [] \<and> startsWith r ''0x'' then r else inviter)"

text \<open>The inviter that \<^verbatim>\<open>handleBurn\<close> passes to \<^verbatim>\<open>burn\<close>.\<close>

definition burnInviterAddr :: "string \<Rightarrow> string option \<Rightarrow> string option \<Rightarrow> string" where
  "burnInviterAddr inviter inviterOnchain rootInviter =
     (if inviter \<noteq> [] \<and> startsWith inviter ''0x'' then inviter
      else if truthy inviterOnchain \<and> inviterOnchain \<noteq> Some ZeroAddress
        then (case inviterOnchain of Some a \<Rightarrow> a | None \<Rightarrow> ZeroAddress)
      else if truthy rootInviter \<and> rootInviter \<noteq> Some ZeroAddress
        then (case rootInviter of Some a \<Rightarrow> a | None \<Rightarrow> ZeroAddress)
      else ZeroAddress)"

text \<open>The inviter that \<^verbatim>\<open>handleSubscribe\<close> passes to \<^verbatim>\<open>subscribe\<close>.\<close>

definition subscribeInviterAddress ::
  "(string \<Rightarrow> bool) \<Rightarrow> string option \<Rightarrow> string \<Rightarrow> string \<Rightarrow> string \<Rightarrow> string" where
  "subscribeInviterAddress checksumOk nftInviterOnchain nftSubInviter fromUrl nftSubRootInviter =
     (if truthy nftInviterOnchain \<and> nftInviterOnchain \<noteq> Some ZeroAddress
        then (case nftInviterOnchain of Some a \<Rightarrow> a | None \<Rightarrow> ZeroAddress)
      else if nftSubInviter \<noteq> [] \<and> isAddress checksumOk nftSubInviter then nftSubInviter
      else if fromUrl \<noteq> [] then fromUrl
      else if nftSubRootInviter \<noteq> [] \<and> isAddress checksumOk nftSubRootInviter
        then nftSubRootInviter
      else ZeroAddress)"

section \<open>Transaction handlers\<close>

text \<open>
  The transaction state is the pair of state variables \<^verbatim>\<open>isPending\<close> and \<^verbatim>\<open>lastAction\<close>.
  A handler is a function of the values its closure captured, of what the wallet and
  the chain answer, and of the state; it returns the calls it made, in order, and the
  state it leaves. Console output is not modelled, and an alert is recorded without
  its text; the alert after a failed burn is recorded with the branch that raised it.
\<close>

record ui_state =
  isPending :: bool
  lastAction :: "string option"

datatype claim_kind = ClaimBurnBNB | ClaimBurnToken | ClaimLoss | ClaimNft | ClaimNftMint

datatype burn_alert = BelowMinBurnValue | InsufficientInputAmount | ExceedsAllowance | Unrecognized

datatype action =
    ReadAllowance
  | SubmitApprove
  | SubmitBurn int string
  | SubmitClaim claim_kind
  | SubmitSubscribe string
  | LoadContractData
  | ClearBurnAmount
  | RefreshSubscribed
  | ReadBalance
  | OpenWallet
  | SwitchNetwork
  | Alert
  | AlertBurn burn_alert

text \<open>
  \<open>Returned\<close>: the handler and every handler it started have run to their end.
  \<open>Suspended\<close>: the answers ran out, so a transaction is still awaited.
  \<open>Threw\<close>: the handler's promise is rejected.
\<close>

datatype outcome = Returned | Suspended | Threw

text \<open>
  The values that the closures of \<^verbatim>\<open>handleApprove\<close> and \<^verbatim>\<open>handleBurn\<close> capture. \<open>signer\<close>
  says whether the signer is set; \<open>allowance\<close> is the allowance that the last poll
  stored; \<open>parsedBurnAmount\<close> is the memo that \<^verbatim>\<open>ethers.parseEther\<close> computes from the
  amount typed.
\<close>

record burn_ctx =
  signer :: bool
  tokenAddress :: "string option"
  parsedBurnAmount :: int
  allowance :: int
  inviter :: string
  inviterOnchain :: "string option"
  rootInviter :: "string option"

text \<open>
  What the burn transaction answers. A rejection is caught as \<^verbatim>\<open>err\<close>, and the handler
  computes \<^verbatim>\<open>msg = err?.reason || err?.message || JSON.stringify(err)\<close>: \<open>Some m\<close> when that
  is the string \<open>m\<close>, \<open>None\<close> when it is not a string (a rejection with \<^verbatim>\<open>undefined\<close>, or
  with a \<^verbatim>\<open>reason\<close> that is not a string).
\<close>

datatype burn_answer = BurnConfirmed | BurnRejected "string option"

text \<open>
  One round of answers for the approve and burn handlers: whether the approval
  transaction goes through, what the allowance read returns (\<open>None\<close> when it throws),
  and what the burn transaction answers.
\<close>

record round =
  approveTx :: bool
  allowanceRead :: "int option"
  burnTx :: burn_answer

definition idle :: ui_state where
  "idle = \<lparr>isPending = False, lastAction = None\<rparr>"

text \<open>\<^verbatim>\<open>String.prototype.includes\<close>: the second string occurs somewhere in the first.\<close>

fun str_includes :: "string \<Rightarrow> string \<Rightarrow> bool" where
  "str_includes [] p = (p = [])"
| "str_includes (c # cs) p = (if startsWith (c # cs) p then True else str_includes cs p)"

text \<open>The branch of the \<^verbatim>\<open>catch\<close> block of \<^verbatim>\<open>handleBurn\<close> that a message selects.\<close>

definition burnFailureAlert :: "string \<Rightarrow> burn_alert" where
  "burnFailureAlert msg =
     (if str_includes msg ''BELOW_MIN_BURN_VALUE'' then BelowMinBurnValue
      else if str_includes msg ''PancakeLibrary: INSUFFICIENT_INPUT_AMOUNT''
        then InsufficientInputAmount
      else if str_includes msg ''exceeds allowance'' then ExceedsAllowance
      else Unrecognized)"

text \<open>
  The part of \<^verbatim>\<open>handleBurn\<close> after the allowance check. When the message of a rejection
  is not a string, \<^verbatim>\<open>msg.includes\<close> throws inside the \<^verbatim>\<open>catch\<close> block: no alert is raised,
  the \<^verbatim>\<open>finally\<close> block still resets the state, and the handler's promise is rejected.
\<close>

definition submitBurn ::
  "burn_ctx \<Rightarrow> round list \<Rightarrow> ui_state \<Rightarrow> outcome \<times> action list \<times> ui_state" where
  "submitBurn ctx rounds st =
     (let st1 = st\<lparr>isPending := True, lastAction := Some ''burn''\<rparr>;
          inviterAddr = burnInviterAddr (inviter ctx) (inviterOnchain ctx) (rootInviter ctx);
          call = SubmitBurn (parsedBurnAmount ctx) inviterAddr
      in case rounds of
           [] \<Rightarrow> (Suspended, [call], st1)
         | r # rs \<Rightarrow>
             (case burnTx r of
                BurnConfirmed \<Rightarrow>
                  (Returned, [call, ClearBurnAmount, LoadContractData],
                   st1\<lparr>isPending := False, lastAction := None\<rparr>)
              | BurnRejected (Some msg) \<Rightarrow>
                  (Returned, [call, AlertBurn (burnFailureAlert msg)],
                   st1\<lparr>isPending := False, lastAction := None\<rparr>)
              | BurnRejected None \<Rightarrow>
                  (Threw, [call], st1\<lparr>isPending := False, lastAction := None\<rparr>)))"

definition after ::
  "action list \<Rightarrow> outcome \<times> action list \<times> ui_state \<Rightarrow> outcome \<times> action list \<times> ui_state" where
  "after done res = (case res of (out, acts, st) \<Rightarrow> (out, done @ acts, st))"

text \<open>
  \<^verbatim>\<open>handleApprove\<close> awaits \<^verbatim>\<open>handleBurn\<close> inside its \<^verbatim>\<open>try\<close> block, so a rejection of
  \<^verbatim>\<open>handleBurn\<close> ends in the \<^verbatim>\<open>catch\<close> block of \<^verbatim>\<open>handleApprove\<close>, which resets the state.
  \<^verbatim>\<open>handleBurn\<close> starts \<^verbatim>\<open>handleApprove\<close> without awaiting it and returns.
\<close>

definition caught ::
  "outcome \<times> action list \<times> ui_state \<Rightarrow> outcome \<times> action list \<times> ui_state" where
  "caught res =
     (case res of
        (out, acts, st) \<Rightarrow>
          if out = Threw then (Returned, acts, st\<lparr>isPending := False, lastAction := None\<rparr>)
          else (out, acts, st))"

function handleApprove ::
    "burn_ctx \<Rightarrow> round list \<Rightarrow> ui_state \<Rightarrow> outcome \<times> action list \<times> ui_state"
  and handleBurn ::
    "burn_ctx \<Rightarrow> round list \<Rightarrow> ui_state \<Rightarrow> outcome \<times> action list \<times> ui_state"
where
  "handleApprove ctx rounds st =
     (if \<not> signer ctx \<or> \<not> truthy (tokenAddress ctx) then (Returned, [], st)
      else
        let st1 = st\<lparr>isPending := True, lastAction := Some ''approve''\<rparr> in
        case rounds of
          [] \<Rightarrow> (Suspended, [SubmitApprove], st1)
        | r # rs \<Rightarrow>
            if approveTx r
            then after [SubmitApprove, LoadContractData] (caught (handleBurn ctx (r # rs) st1))
            else (Returned, [SubmitApprove], st1\<lparr>isPending := False, lastAction := None\<rparr>))"
| "handleBurn ctx rounds st =
     (if \<not> signer ctx then (Returned, [], st)
      else if truthy (tokenAddress ctx) then
        (case rounds of
           [] \<Rightarrow> (Suspended, [ReadAllowance], st)
         | r # rs \<Rightarrow>
             (case allowanceRead r of
                None \<Rightarrow> after [ReadAllowance] (submitBurn ctx (r # rs) st)
              | Some currentAllowance \<Rightarrow>
                  if currentAllowance < parsedBurnAmount ctx
                  then after [ReadAllowance] (handleApprove ctx rs st)
                  else after [ReadAllowance] (submitBurn ctx (r # rs) st)))
      else submitBurn ctx rounds st)"
  by pat_completeness auto
termination
  by (relation "measure (\<lambda>x. case x of
        Inl (ctx, rounds, st) \<Rightarrow> 2 * length rounds + 1
      | Inr (ctx, rounds, st) \<Rightarrow> 2 * length rounds)") auto

declare handleApprove.simps [simp del] handleBurn.simps [simp del]

subsection \<open>The burn button\<close>





text \<open>
  The five claim handlers differ in the contract method and in the name they store
  in \<^verbatim>\<open>lastAction\<close>; \<open>handleClaim\<close> is their common body. Its second argument says
  whether the signer is set, its third whether the transaction goes through.
\<close>

fun claimAction :: "claim_kind \<Rightarrow> string" where
  "claimAction ClaimBurnBNB = ''claimBurnBNB''"
| "claimAction ClaimBurnToken = ''claimBurnToken''"
| "claimAction ClaimLoss = ''claimLoss''"
| "claimAction ClaimNft = ''claimNft''"
| "claimAction ClaimNftMint = ''claimNftMint''"

definition handleClaim ::
  "claim_kind \<Rightarrow> bool \<Rightarrow> bool \<Rightarrow> ui_state \<Rightarrow> action list \<times> ui_state" where
  "handleClaim kind hasSigner claimTx st =
     (if \<not> hasSigner then ([], st)
      else
        let st1 = st\<lparr>isPending := True, lastAction := Some (claimAction kind)\<rparr> in
        if claimTx
        then ([SubmitClaim kind, LoadContractData],
              st1\<lparr>isPending := False, lastAction := None\<rparr>)
        else ([SubmitClaim kind], st1\<lparr>isPending := False, lastAction := None\<rparr>))"

definition handleClaimBurnBNB :: "bool \<Rightarrow> bool \<Rightarrow> ui_state \<Rightarrow> action list \<times> ui_state" where
  "handleClaimBurnBNB = handleClaim ClaimBurnBNB"

definition handleClaimBurnToken :: "bool \<Rightarrow> bool \<Rightarrow> ui_state \<Rightarrow> action list \<times> ui_state" where
  "handleClaimBurnToken = handleClaim ClaimBurnToken"

definition handleClaimLossDiv :: "bool \<Rightarrow> bool \<Rightarrow> ui_state \<Rightarrow> action list \<times> ui_state" where
  "handleClaimLossDiv = handleClaim ClaimLoss"

definition handleClaimNftDiv :: "bool \<Rightarrow> bool \<Rightarrow> ui_state \<Rightarrow> action list \<times> ui_state" where
  "handleClaimNftDiv = handleClaim ClaimNft"

definition handleClaimNFT :: "bool \<Rightarrow> bool \<Rightarrow> ui_state \<Rightarrow> action list \<times> ui_state" where
  "handleClaimNFT = handleClaim ClaimNftMint"

text \<open>
  The values that the closure of \<^verbatim>\<open>handleSubscribe\<close> captures; \<open>nftSubscription\<close> is the
  configured address of the subscription contract, \<open>fromUrl\<close> the memo
  \<^verbatim>\<open>inviterFromUrl\<close>.
\<close>

record subscribe_ctx =
  isConnected :: bool
  chainId :: int
  hasSigner :: bool
  address :: "string option"
  nftSubPrice :: int
  nftSubscription :: string
  nftInviterOnchain :: "string option"
  nftSubInviter :: string
  fromUrl :: string
  nftSubRootInviter :: string

text \<open>
  What the outside answers to \<^verbatim>\<open>handleSubscribe\<close>: whether the network switch goes
  through, the balance read (\<open>None\<close> when it throws), and whether the subscription
  transaction goes through. The two reads after the transaction are in the same
  \<^verbatim>\<open>try\<close> block; whether they throw changes neither the calls nor the state.
\<close>

record subscribe_env =
  switchNetworkOk :: bool
  balanceRead :: "int option"
  subscribeTx :: bool

text \<open>The part of \<^verbatim>\<open>handleSubscribe\<close> after its guards.\<close>

definition submitSubscribe ::
  "(string \<Rightarrow> bool) \<Rightarrow> subscribe_ctx \<Rightarrow> subscribe_env \<Rightarrow> ui_state \<Rightarrow> action list \<times> ui_state" where
  "submitSubscribe checksumOk ctx env st =
     (let st1 = st\<lparr>isPending := True, lastAction := Some ''subscribe''\<rparr> in
      if nftSubscription ctx = [] \<or> nftSubscription ctx = ZeroAddress
      then ([], st1\<lparr>isPending := False\<rparr>)
      else
        let inviterAddress =
              subscribeInviterAddress checksumOk (nftInviterOnchain ctx) (nftSubInviter ctx)
                (fromUrl ctx) (nftSubRootInviter ctx)
        in if \<not> subscribeTx env
           then ([SubmitSubscribe inviterAddress], st1\<lparr>isPending := False\<rparr>)
           else ([SubmitSubscribe inviterAddress, Alert, RefreshSubscribed],
                 st1\<lparr>isPending := False\<rparr>))"

definition handleSubscribe ::
  "(string \<Rightarrow> bool) \<Rightarrow> subscribe_ctx \<Rightarrow> subscribe_env \<Rightarrow> ui_state \<Rightarrow> action list \<times> ui_state" where
  "handleSubscribe checksumOk ctx env st =
     (if \<not> isConnected ctx then ([OpenWallet], st)
      else if chainId ctx \<noteq> 56
        then (if switchNetworkOk env then [SwitchNetwork] else [SwitchNetwork, Alert], st)
      else if \<not> hasSigner ctx then ([], st)
      else if \<not> truthy (address ctx) then ([], st)
      else
        case balanceRead env of
          None \<Rightarrow> (case submitSubscribe checksumOk ctx env st of
                     (acts, st') \<Rightarrow> (ReadBalance # acts, st'))
        | Some balance \<Rightarrow>
            if balance < nftSubPrice ctx then ([ReadBalance, Alert], st)
            else (case submitSubscribe checksumOk ctx env st of
                    (acts, st') \<Rightarrow> (ReadBalance # acts, st')))"

section \<open>Properties of the pricing functions\<close>

lemma bigint_div_nonneg:
  "0 \<le> a \<Longrightarrow> 0 < b \<Longrightarrow> bigint_div a b = Inr (a div b)"
  by (cases "a = 0") (simp_all add: bigint_div_def)

lemma le_div_iff_int:
  fixes q n d :: int
  assumes "0 < d"
  shows "(q \<le> n div d) = (q * d \<le> n)"
proof
  assume "q \<le> n div d"
  then have "q * d \<le> (n div d) * d" using assms by (simp add: mult_right_mono)
  also have "\<dots> \<le> n" using assms
    by (metis div_mult_mod_eq le_add_same_cancel1 pos_mod_sign)
  finally show "q * d \<le> n" .
next
  assume a: "q * d \<le> n"
  show "q \<le> n div d"
  proof (rule ccontr)
    assume "\<not> q \<le> n div d"
    then have "n div d + 1 \<le> q" by simp
    then have "(n div d + 1) * d \<le> q * d"
      using assms by (simp only: mult_right_mono less_imp_le)
    moreover have "(n div d + 1) * d = (n div d) * d + d" by (simp add: distrib_right)
    moreover have "(n div d) * d + n mod d = n" by simp
    moreover have "n mod d < d" using assms by simp
    ultimately show False using a by linarith
  qed
qed

lemma div_mono_frac:
  fixes x1 x2 c R :: int
  assumes "0 \<le> x1" "x1 \<le> x2" "0 < c" "0 \<le> R"
  shows "(x1 * R) div (c + x1) \<le> (x2 * R) div (c + x2)"
proof -
  let ?q = "(x1 * R) div (c + x1)"
  have d1: "0 < c + x1" and d2: "0 < c + x2" using assms by auto
  have a: "?q * (c + x1) \<le> x1 * R"
    using le_div_iff_int [OF d1, of ?q "x1 * R"] by simp
  have qR: "?q \<le> R"
  proof -
    have "x1 * R \<le> R * (c + x1)" using assms by (simp add: algebra_simps)
    then have "?q \<le> (R * (c + x1)) div (c + x1)" using d1 by (rule zdiv_mono1)
    then show ?thesis using d1 by simp
  qed
  have "?q * (x2 - x1) \<le> R * (x2 - x1)" using qR assms by (simp add: mult_right_mono)
  then have "?q * (c + x2) \<le> x2 * R" using a by (simp add: algebra_simps)
  then show ?thesis using le_div_iff_int [OF d2, of ?q "x2 * R"] by simp
qed

lemma calculateBurnValue_pos:
  assumes "0 < amountIn" "0 < tokenReserve" "0 < bnbReserve"
  shows "calculateBurnValue tokenReserve bnbReserve amountIn =
           (amountIn * 997 * bnbReserve) div (tokenReserve * 1000 + amountIn * 997)"
proof -
  have n: "0 \<le> amountIn * 997 * bnbReserve" using assms by simp
  have d: "0 < tokenReserve * 1000 + amountIn * 997" using assms by simp
  show ?thesis
    using assms bigint_div_nonneg [OF n d]
    by (simp add: calculateBurnValue_def calculateBurnValue_try_def Let_def)
qed

lemma calculateBurnValue_zero_guard:
  "amountIn \<le> 0 \<or> tokenReserve \<le> 0 \<or> bnbReserve \<le> 0 \<Longrightarrow>
     calculateBurnValue tokenReserve bnbReserve amountIn = 0"
  by (auto simp add: calculateBurnValue_def)

lemma calculateBurnValue_nonneg:
  "0 \<le> calculateBurnValue tokenReserve bnbReserve amountIn"
proof (cases "0 < amountIn \<and> 0 < tokenReserve \<and> 0 < bnbReserve")
  case True
  then have "0 \<le> amountIn * 997 * bnbReserve"
    and "0 < tokenReserve * 1000 + amountIn * 997"
    by simp_all
  then show ?thesis
    using True by (simp add: calculateBurnValue_pos pos_imp_zdiv_nonneg_iff)
next
  case False
  then show ?thesis by (auto simp add: calculateBurnValue_def)
qed

text \<open>
  C4. For a positive input and positive reserves the forward quote is the floor of
  \<open>amountIn * 997 * reserveOut / (reserveIn * 1000 + amountIn * 997)\<close> in exact integer
  arithmetic, and the division in the \<^verbatim>\<open>try\<close> block does not throw; when the input or a
  reserve is not positive the quote is 0 and the division is not reached.
\<close>

theorem calculateBurnValue_formula:
  "(0 < amountIn \<and> 0 < tokenReserve \<and> 0 < bnbReserve \<longrightarrow>
      calculateBurnValue_try tokenReserve bnbReserve amountIn =
        Inr (calculateBurnValue tokenReserve bnbReserve amountIn)
      \<and> calculateBurnValue tokenReserve bnbReserve amountIn =
        \<lfloor>real_of_int (amountIn * 997 * bnbReserve) /
           real_of_int (tokenReserve * 1000 + amountIn * 997)\<rfloor>)
   \<and> (amountIn \<le> 0 \<or> tokenReserve \<le> 0 \<or> bnbReserve \<le> 0 \<longrightarrow>
      calculateBurnValue tokenReserve bnbReserve amountIn = 0)"
proof (intro conjI impI)
  assume pos: "0 < amountIn \<and> 0 < tokenReserve \<and> 0 < bnbReserve"
  then have n: "0 \<le> amountIn * 997 * bnbReserve"
    and d: "0 < tokenReserve * 1000 + amountIn * 997" by simp_all
  show "calculateBurnValue_try tokenReserve bnbReserve amountIn =
          Inr (calculateBurnValue tokenReserve bnbReserve amountIn)"
    using pos bigint_div_nonneg [OF n d]
    by (simp add: calculateBurnValue_def calculateBurnValue_try_def Let_def)
  show "calculateBurnValue tokenReserve bnbReserve amountIn =
          \<lfloor>real_of_int (amountIn * 997 * bnbReserve) /
             real_of_int (tokenReserve * 1000 + amountIn * 997)\<rfloor>"
    using pos by (simp only: calculateBurnValue_pos floor_divide_of_int_eq)
next
  assume "amountIn \<le> 0 \<or> tokenReserve \<le> 0 \<or> bnbReserve \<le> 0"
  then show "calculateBurnValue tokenReserve bnbReserve amountIn = 0"
    by (rule calculateBurnValue_zero_guard)
qed

theorem calculateBurnValue_formula_witness:
  "calculateBurnValue_try 1000 1000 100 = Inr 90 \<and> calculateBurnValue 1000 1000 100 = 90
   \<and> calculateBurnValue 0 1000 100 = 0 \<and> calculateBurnValue 1000 0 100 = 0
   \<and> calculateBurnValue 1000 1000 (- 5) = 0"
  using calculateBurnValue_formula [of 100 1000 1000]
    calculateBurnValue_formula [of 100 0 1000]
    calculateBurnValue_formula [of 100 1000 0]
    calculateBurnValue_formula [of "- 5" 1000 1000]
  by simp

text \<open>
  C8. For positive reserves the forward quote is non-decreasing in the input: for
  \<open>0 \<le> a1 \<le> a2\<close> the quote of \<open>a1\<close> is at most the quote of \<open>a2\<close>; and the quote
  of 0 is 0.
\<close>

theorem calculateBurnValue_mono:
  assumes "0 < tokenReserve" "0 < bnbReserve" "0 \<le> a1" "a1 \<le> a2"
  shows "calculateBurnValue tokenReserve bnbReserve a1
           \<le> calculateBurnValue tokenReserve bnbReserve a2
         \<and> calculateBurnValue tokenReserve bnbReserve 0 = 0"
proof
  show "calculateBurnValue tokenReserve bnbReserve a1
          \<le> calculateBurnValue tokenReserve bnbReserve a2"
  proof (cases "a1 = 0")
    case True
    then show ?thesis
      using calculateBurnValue_nonneg [of tokenReserve bnbReserve a2]
      by (simp add: calculateBurnValue_zero_guard)
  next
    case False
    then have p1: "0 < a1" and p2: "0 < a2" using assms by simp_all
    have "(a1 * 997 * bnbReserve) div (tokenReserve * 1000 + a1 * 997)
            \<le> (a2 * 997 * bnbReserve) div (tokenReserve * 1000 + a2 * 997)"
      using div_mono_frac [of "a1 * 997" "a2 * 997" "tokenReserve * 1000" bnbReserve] assms
      by simp
    then show ?thesis
      using p1 p2 assms by (simp only: calculateBurnValue_pos)
  qed
  show "calculateBurnValue tokenReserve bnbReserve 0 = 0"
    by (simp add: calculateBurnValue_zero_guard)
qed

theorem calculateBurnValue_mono_witness:
  "(0::int) < 1000 \<and> (0::int) \<le> 100 \<and> (100::int) \<le> 200
   \<and> calculateBurnValue 1000 1000 100 \<le> calculateBurnValue 1000 1000 200
   \<and> calculateBurnValue 1000 1000 0 = 0"
  using calculateBurnValue_mono [of 1000 1000 100 200] by simp

text \<open>
  C2. The inverse minimum input is claimed to be 0 whenever the requested value is at
  least the reserve that pays it. With a token reserve of 1000, a reserve of 1 and a
  requested value of 2 the guard is passed, the denominator is negative, no exception
  is thrown, and the function returns a negative amount.
\<close>

theorem calculateMinTokenAmount_negative:
  "calculateMinTokenAmount 1000 1 2 = - 2026"
  by (simp add: calculateMinTokenAmount_def calculateMinTokenAmount_try_def bigint_div_def)

lemma calculateMinTokenAmount_zero_cases:
  "minValue \<le> 0 \<or> tokenReserve \<le> 0 \<or> bnbReserve \<le> 0 \<or> minValue = bnbReserve \<Longrightarrow>
     calculateMinTokenAmount tokenReserve bnbReserve minValue = 0"
  by (auto simp add: calculateMinTokenAmount_def calculateMinTokenAmount_try_def
      bigint_div_def)

lemma margin_split:
  fixes m :: int
  shows "(m * 101) div 100 = m + m div 100"
proof -
  have "m * 101 = m + m * 100" by simp
  then have "(m * 101) div 100 = (m + m * 100) div 100" by simp
  also have "\<dots> = m div 100 + m" by (simp only: div_mult_self3)
  finally show ?thesis by simp
qed

lemma calculateMinTokenAmount_pos:
  assumes "0 < tokenReserve" "0 < bnbReserve" "0 < minValue" "minValue < bnbReserve"
  shows "calculateMinTokenAmount tokenReserve bnbReserve minValue =
           (let m = (tokenReserve * minValue * 1000) div ((bnbReserve - minValue) * 997)
            in m + m div 100)"
proof -
  let ?N = "tokenReserve * minValue * 1000"
  let ?D = "(bnbReserve - minValue) * 997"
  have n: "0 \<le> ?N" and d: "0 < ?D" using assms by simp_all
  have m: "0 \<le> ?N div ?D" using n d by (simp add: pos_imp_zdiv_nonneg_iff)
  have 1: "bigint_div ?N ?D = Inr (?N div ?D)" using n d by (rule bigint_div_nonneg)
  have 2: "bigint_div (?N div ?D * 101) 100 = Inr ((?N div ?D * 101) div 100)"
    using m by (intro bigint_div_nonneg) simp_all
  show ?thesis
    using assms 1 2
    by (simp add: calculateMinTokenAmount_def calculateMinTokenAmount_try_def Let_def
        margin_split)
qed

text \<open>
  Where the round trip holds in the code. For positive reserves and a requested value
  \<open>v\<close> with \<open>0 < v < reserveOut\<close>, the forward quote of the inverse minimum input
  reaches \<open>v\<close> exactly when the quotient \<open>reserveIn * v * 1000 div ((reserveOut - v) * 997)\<close>,
  taken before the 1% margin, is at least 100 or that division leaves no remainder.
  The margin is added to the rounded-down quotient, so below 100 it adds nothing.
\<close>

theorem roundtrip_iff:
  assumes "0 < tokenReserve" "0 < bnbReserve" "0 < minValue" "minValue < bnbReserve"
  shows "(minValue \<le> calculateBurnValue tokenReserve bnbReserve
                       (calculateMinTokenAmount tokenReserve bnbReserve minValue))
         = (100 \<le> (tokenReserve * minValue * 1000) div ((bnbReserve - minValue) * 997)
            \<or> ((bnbReserve - minValue) * 997) dvd (tokenReserve * minValue * 1000))"
proof -
  define N where "N = tokenReserve * minValue * 1000"
  define D where "D = (bnbReserve - minValue) * 997"
  define m where "m = N div D"
  define x where "x = m + m div 100"
  have Npos: "0 < N" and Dpos: "0 < D" using assms by (simp_all add: N_def D_def)
  have m0: "0 \<le> m" using Npos Dpos by (simp add: m_def pos_imp_zdiv_nonneg_iff)
  have xm: "m \<le> x" using m0 by (simp add: x_def pos_imp_zdiv_nonneg_iff)
  have decomp: "N = m * D + N mod D" by (simp add: m_def)
  have r0: "0 \<le> N mod D" and rD: "N mod D < D" using Dpos by simp_all
  have cm: "calculateMinTokenAmount tokenReserve bnbReserve minValue = x"
    using calculateMinTokenAmount_pos [OF assms] by (simp add: Let_def x_def m_def N_def D_def)
  have key: "(N \<le> x * D) = (100 \<le> m \<or> D dvd N)"
  proof (cases "D dvd N")
    case True
    then have "N mod D = 0" by simp
    then have "N = m * D" using decomp by simp
    moreover have "m * D \<le> x * D" using xm Dpos by (simp add: mult_right_mono)
    ultimately show ?thesis using True by simp
  next
    case nd: False
    then have "N mod D \<noteq> 0" by (simp add: dvd_eq_mod_eq_0)
    then have rpos: "0 < N mod D" using r0 by simp
    show ?thesis
    proof (cases "100 \<le> m")
      case True
      then have "1 \<le> m div 100" using le_div_iff_int [of 100 1 m] by simp
      then have "m + 1 \<le> x" by (simp add: x_def)
      then have "(m + 1) * D \<le> x * D" using Dpos by (simp only: mult_right_mono less_imp_le)
      moreover have "N < (m + 1) * D" using decomp rD by (simp add: distrib_right)
      ultimately show ?thesis using True by simp
    next
      case False
      then have "m div 100 = 0" using m0 by simp
      then have "x = m" by (simp add: x_def)
      then have "x * D < N" using decomp rpos by simp
      then show ?thesis using False nd by simp
    qed
  qed
  have main: "(minValue \<le> calculateBurnValue tokenReserve bnbReserve x)
                = (100 \<le> m \<or> D dvd N)"
  proof (cases "x = 0")
    case True
    then have "m = 0" using xm m0 by simp
    then have "N < D" using decomp rD by simp
    then have "\<not> D dvd N" using Npos by (simp add: zdvd_not_zless)
    moreover have "calculateBurnValue tokenReserve bnbReserve 0 = 0"
      by (simp add: calculateBurnValue_zero_guard)
    ultimately show ?thesis using True assms \<open>m = 0\<close> by simp
  next
    case False
    then have xpos: "0 < x" using xm m0 by simp
    have den: "0 < tokenReserve * 1000 + x * 997" using xpos assms by simp
    have "calculateBurnValue tokenReserve bnbReserve x
            = (x * 997 * bnbReserve) div (tokenReserve * 1000 + x * 997)"
      using xpos assms by (simp add: calculateBurnValue_pos)
    then have "(minValue \<le> calculateBurnValue tokenReserve bnbReserve x)
                 = (minValue * (tokenReserve * 1000 + x * 997) \<le> x * 997 * bnbReserve)"
      using le_div_iff_int [OF den] by simp
    also have "\<dots> = (N \<le> x * D)"
      by (simp add: N_def D_def algebra_simps)
    finally show ?thesis using key by simp
  qed
  show ?thesis using main by (simp only: cm m_def N_def D_def)
qed

theorem roundtrip_iff_witness:
  "(0::int) < 1000 \<and> (0::int) < 500 \<and> (500::int) < 1000
   \<and> 500 \<le> calculateBurnValue 1000 1000 (calculateMinTokenAmount 1000 1000 500)"
  using roundtrip_iff [of 1000 1000 500] by simp

text \<open>
  With the quotient rounded up, as the specification words the inverse, the round trip
  holds for all positive reserves and every requested value below the reserve.
\<close>

lemma roundtrip_rounded_up:
  assumes "0 < reserveIn" "0 < reserveOut" "0 < minValueOut" "minValueOut < reserveOut"
  shows "minValueOut \<le> calculateBurnValue reserveIn reserveOut
                         (minAmountIn_rounded_up reserveIn reserveOut minValueOut)"
proof -
  define N where "N = reserveIn * minValueOut * 1000"
  define D where "D = (reserveOut - minValueOut) * 997"
  define q where "q = (N + D - 1) div D"
  define x where "x = q + q div 100"
  have Npos: "0 < N" and Dpos: "0 < D" using assms by (simp_all add: N_def D_def)
  have "N + D - 1 = q * D + (N + D - 1) mod D" by (simp add: q_def)
  moreover have "(N + D - 1) mod D < D" using Dpos by simp
  ultimately have ND: "N \<le> q * D" by linarith
  have q1: "1 \<le> q" using le_div_iff_int [OF Dpos, of 1 "N + D - 1"] Npos by (simp add: q_def)
  have qx: "q \<le> x" using q1 by (simp add: x_def pos_imp_zdiv_nonneg_iff)
  have xpos: "0 < x" using q1 qx by simp
  have "q * D \<le> x * D" using qx Dpos by (simp add: mult_right_mono)
  then have NxD: "N \<le> x * D" using ND by simp
  have mx: "minAmountIn_rounded_up reserveIn reserveOut minValueOut = x"
    by (simp add: minAmountIn_rounded_up_def Let_def margin_split x_def q_def N_def D_def)
  have den: "0 < reserveIn * 1000 + x * 997" using xpos assms by simp
  have "minValueOut * (reserveIn * 1000 + x * 997) \<le> x * 997 * reserveOut"
    using NxD by (simp add: N_def D_def algebra_simps)
  then have "minValueOut \<le> (x * 997 * reserveOut) div (reserveIn * 1000 + x * 997)"
    using le_div_iff_int [OF den] by simp
  then show ?thesis using xpos assms by (simp add: mx calculateBurnValue_pos)
qed

text \<open>
  C3. The round trip is claimed never to under-shoot. With a token reserve of 10000, a
  reserve of 1000 and a requested value of 1, all within the claim's conditions, the
  inverse minimum input is 10 and its forward quote is 0: the quotient is rounded down
  and the 1% margin of 10 is lost in the second rounding.
\<close>

theorem roundtrip_counterexample:
  "(0::int) < 10000 \<and> (0::int) < 1000 \<and> (0::int) < 1 \<and> (1::int) < 1000
   \<and> calculateMinTokenAmount 10000 1000 1 = 10
   \<and> calculateBurnValue 10000 1000 (calculateMinTokenAmount 10000 1000 1) = 0
   \<and> \<not> 1 \<le> calculateBurnValue 10000 1000 (calculateMinTokenAmount 10000 1000 1)"
  by (simp add: calculateMinTokenAmount_def calculateMinTokenAmount_try_def
      calculateBurnValue_def calculateBurnValue_try_def bigint_div_def)

section \<open>Properties of the reconciliation\<close>

lemma digit_not_space: "isDigitOf base c \<Longrightarrow> \<not> isWhiteSpace c"
  by (auto simp add: isDigitOf_def digitValue_def isWhiteSpace_def Let_def
      split: option.splits if_splits)

lemma dec_isDigitOf: "isDecDigit c \<Longrightarrow> isDigitOf 10 c"
  by (auto simp add: isDecDigit_def isDigitOf_def digitValue_def Let_def)

lemma dec_digitValue: "isDecDigit c \<Longrightarrow> digitValue c = Some (code_unit c - 48)"
  by (simp add: digitValue_def isDecDigit_def Let_def)

lemma trim_id:
  assumes "s \<noteq> []" "\<not> isWhiteSpace (hd s)" "\<not> isWhiteSpace (last s)"
  shows "trim s = s"
proof -
  have 1: "dropWhile isWhiteSpace s = s" using assms(1,2) by (cases s) simp_all
  obtain a as where r: "rev s = a # as" using assms(1) by (cases "rev s") auto
  have "a = last s" using r assms(1) by (metis hd_rev list.sel(1))
  then have 2: "dropWhile isWhiteSpace (rev s) = rev s" using assms(3) by (simp add: r)
  show ?thesis by (simp add: trim_def 1 2)
qed

lemma dropWhile_hd: "dropWhile P xs \<noteq> [] \<Longrightarrow> \<not> P (hd (dropWhile P xs))"
  by (metis hd_dropWhile)

lemma last_dropWhile: "dropWhile P xs \<noteq> [] \<Longrightarrow> last (dropWhile P xs) = last xs"
  by (induction xs) (auto split: if_splits)

lemma trim_idem: "trim (trim s) = trim s"
proof (cases "trim s = []")
  case True
  have "trim [] = []" by (simp add: trim_def)
  then show ?thesis using True by simp
next
  case False
  define u where "u = dropWhile isWhiteSpace s"
  define v where "v = dropWhile isWhiteSpace (rev u)"
  have t: "trim s = rev v" by (simp add: trim_def u_def v_def)
  have v: "v \<noteq> []" using False t by simp
  then have u: "u \<noteq> []" by (auto simp add: v_def)
  have "\<not> isWhiteSpace (hd v)" using v unfolding v_def by (rule dropWhile_hd)
  then have l: "\<not> isWhiteSpace (last (rev v))" using v by (simp add: last_rev)
  have "last v = last (rev u)" using v unfolding v_def by (rule last_dropWhile)
  then have "last v = hd u" using u by (simp add: last_rev)
  moreover have "\<not> isWhiteSpace (hd u)" using u unfolding u_def by (rule dropWhile_hd)
  ultimately have h: "\<not> isWhiteSpace (hd (rev v))" using v by (simp add: hd_rev)
  show ?thesis using trim_id [of "rev v"] v h l by (simp add: t)
qed

lemma BigInt_trim: "BigInt (trim s) = BigInt s"
  by (simp add: BigInt_def trim_idem Let_def)

lemma digitsFrom_radix:
  "list_all (isDigitOf base) ds \<Longrightarrow>
     digitsFrom base acc ds =
       Some (foldl (\<lambda>acc c. acc * int base
                      + int (case digitValue c of None \<Rightarrow> 0 | Some d \<Rightarrow> d)) acc ds)"
proof (induction ds arbitrary: acc)
  case Nil
  then show ?case by simp
next
  case (Cons c cs)
  then obtain d where d: "digitValue c = Some d" "d < base"
    by (auto simp add: isDigitOf_def split: option.splits)
  then show ?case using Cons by simp
qed

lemma parseDigits_radix:
  "ds \<noteq> [] \<Longrightarrow> list_all (isDigitOf base) ds \<Longrightarrow>
     parseDigits base ds = Some (radix_value base ds)"
  by (simp add: parseDigits_def radix_value_def digitsFrom_radix)

lemma radix_decimal_aux:
  "list_all isDecDigit ds \<Longrightarrow>
     foldl (\<lambda>acc c. acc * 10 + int (case digitValue c of None \<Rightarrow> 0 | Some d \<Rightarrow> d)) acc ds
       = foldl (\<lambda>acc c. acc * 10 + (int (code_unit c) - 48)) acc ds"
proof (induction ds arbitrary: acc)
  case Nil
  then show ?case by simp
next
  case (Cons c cs)
  then have c: "isDecDigit c" by simp
  then have "48 \<le> code_unit c" by (simp add: isDecDigit_def)
  then have "int (code_unit c - 48) = int (code_unit c) - 48" by simp
  then show ?case using Cons c by (simp add: dec_digitValue)
qed

lemma radix_decimal: "list_all isDecDigit ds \<Longrightarrow> radix_value 10 ds = decimal_value ds"
  by (simp add: radix_value_def decimal_value_def radix_decimal_aux)

lemma all_dec_digitOf: "list_all isDecDigit ds \<Longrightarrow> list_all (isDigitOf 10) ds"
  by (simp add: list_all_iff dec_isDigitOf)

lemma last_digit_not_space:
  "ds \<noteq> [] \<Longrightarrow> list_all (isDigitOf base) ds \<Longrightarrow> \<not> isWhiteSpace (last ds)"
proof -
  assume "ds \<noteq> []" and all: "list_all (isDigitOf base) ds"
  then have "last ds \<in> set ds" by simp
  then have "isDigitOf base (last ds)" using all by (simp add: list_all_iff)
  then show ?thesis by (rule digit_not_space)
qed

lemma startsWith_digit:
  assumes "startsWith ds p" "list_all isDecDigit ds" "c \<in> set p"
  shows "isDecDigit c"
proof -
  from assms(1) have "take (length p) ds = p" by (simp add: startsWith_def)
  then have "c \<in> set (take (length p) ds)" using assms(3) by simp
  then have "c \<in> set ds" by (rule in_set_takeD)
  then show ?thesis using assms(2) by (simp add: list_all_iff)
qed

lemma not_dec_digit:
  "\<not> isDecDigit CHR ''x''" "\<not> isDecDigit CHR ''X''" "\<not> isDecDigit CHR ''o''"
  "\<not> isDecDigit CHR ''O''" "\<not> isDecDigit CHR ''b''" "\<not> isDecDigit CHR ''B''"
  "\<not> isDecDigit CHR ''+''" "\<not> isDecDigit CHR ''-''"
  by (simp_all add: isDecDigit_def code_unit_def)

lemma BigInt_dec:
  assumes "ds \<noteq> []" "list_all isDecDigit ds"
  shows "BigInt ds = Inr (decimal_value ds)"
proof -
  have d10: "list_all (isDigitOf 10) ds" using assms(2) by (rule all_dec_digitOf)
  have pd: "parseDigits 10 ds = Some (decimal_value ds)"
    using assms d10 by (simp add: parseDigits_radix radix_decimal)
  have pre: "\<not> startsWith ds ''0x''" "\<not> startsWith ds ''0X''" "\<not> startsWith ds ''0o''"
    "\<not> startsWith ds ''0O''" "\<not> startsWith ds ''0b''" "\<not> startsWith ds ''0B''"
    "\<not> startsWith ds ''+''" "\<not> startsWith ds ''-''"
    using startsWith_digit [OF _ assms(2)] not_dec_digit by fastforce+
  have "\<not> isWhiteSpace (hd ds)"
    using assms d10 by (cases ds) (simp_all add: digit_not_space [of 10])
  then have tr: "trim ds = ds"
    using assms(1) last_digit_not_space [OF assms(1) d10] by (simp add: trim_id)
  show ?thesis using pd pre assms(1) by (simp add: BigInt_def tr stringIntegerLiteral_def)
qed

lemma BigInt_signed:
  assumes "ds \<noteq> []" "list_all isDecDigit ds"
  shows "BigInt (CHR ''-'' # ds) = Inr (- decimal_value ds)"
    and "BigInt (CHR ''+'' # ds) = Inr (decimal_value ds)"
proof -
  have d10: "list_all (isDigitOf 10) ds" using assms(2) by (rule all_dec_digitOf)
  have pd: "parseDigits 10 ds = Some (decimal_value ds)"
    using assms d10 by (simp add: parseDigits_radix radix_decimal)
  have l: "\<not> isWhiteSpace (last ds)" using assms(1) d10 by (rule last_digit_not_space)
  have m: "trim (CHR ''-'' # ds) = CHR ''-'' # ds"
    using assms(1) l by (intro trim_id) (simp_all add: isWhiteSpace_def code_unit_def)
  have p: "trim (CHR ''+'' # ds) = CHR ''+'' # ds"
    using assms(1) l by (intro trim_id) (simp_all add: isWhiteSpace_def code_unit_def)
  show "BigInt (CHR ''-'' # ds) = Inr (- decimal_value ds)"
    using pd by (simp add: BigInt_def m stringIntegerLiteral_def startsWith_def)
  show "BigInt (CHR ''+'' # ds) = Inr (decimal_value ds)"
    using pd by (simp add: BigInt_def p stringIntegerLiteral_def startsWith_def)
qed

lemma BigInt_prefixed:
  assumes "ds \<noteq> []" "list_all (isDigitOf base) ds"
    and "(p, base) \<in> {(''0x'', 16), (''0X'', 16), (''0o'', 8), (''0O'', 8), (''0b'', 2), (''0B'', 2)}"
  shows "BigInt (p @ ds) = Inr (radix_value base ds)"
proof -
  have pd: "parseDigits base ds = Some (radix_value base ds)"
    using assms(1,2) by (rule parseDigits_radix)
  have l: "\<not> isWhiteSpace (last ds)" using assms(1,2) by (rule last_digit_not_space)
  have "\<not> isWhiteSpace (hd (p @ ds))"
    using assms(3) by (auto simp add: isWhiteSpace_def code_unit_def)
  moreover have "last (p @ ds) = last ds" using assms(1) by simp
  moreover have "p @ ds \<noteq> []" using assms(1) by simp
  ultimately have tr: "trim (p @ ds) = p @ ds" using l by (simp add: trim_id)
  show ?thesis
    using assms(3) pd assms(1)
    by (auto simp add: BigInt_def tr stringIntegerLiteral_def startsWith_def)
qed

text \<open>
  C5, as the code has it. When the off-chain snapshot is present, each effective figure
  (cost basis, sold value, holding value, loss) is the snapshot's field as
  \<^verbatim>\<open>parseWeiString\<close> reads it, whatever the on-chain values are. When the snapshot is
  absent, each effective figure is the on-chain value, and the effective loss is 0 when
  the cached loss is not valid, whatever its amount. \<^verbatim>\<open>parseWeiString\<close> gives 0 for an
  absent field and for the empty string, and otherwise what \<^verbatim>\<open>BigInt\<close> reads, with 0
  when \<^verbatim>\<open>BigInt\<close> throws. \<^verbatim>\<open>BigInt\<close> ignores white space around the number and reads
  decimal digits, with a sign or without, as their decimal value, and the digits of
  base 16, 8 or 2 after the prefix \<^verbatim>\<open>0x\<close>, \<^verbatim>\<open>0o\<close> or \<^verbatim>\<open>0b\<close> as their value in that base.
\<close>

theorem reconcile_precedence:
  "(offchainStatus st = Some oc \<longrightarrow>
       effectiveCostBasis st = parseWeiString (oc_costBasis oc)
     \<and> effectiveSoldValue st = parseWeiString (oc_soldValue oc)
     \<and> effectiveHoldingValue st = parseWeiString (oc_currentHoldingValue oc)
     \<and> effectiveLossAmount st = parseWeiString (oc_lossAmount oc))
   \<and> (offchainStatus st = None \<longrightarrow>
       effectiveCostBasis st = costBasis (lossSnapshot st)
     \<and> effectiveSoldValue st = soldValue (lossSnapshot st)
     \<and> effectiveHoldingValue st = holdingValue st
     \<and> effectiveLossAmount st = (if valid (cachedLoss st) then loss (cachedLoss st) else 0))
   \<and> parseWeiString None = 0
   \<and> parseWeiString (Some []) = 0
   \<and> (BigInt s = Inl e \<longrightarrow> parseWeiString (Some s) = 0)
   \<and> (s \<noteq> [] \<and> BigInt s = Inr n \<longrightarrow> parseWeiString (Some s) = n)
   \<and> BigInt (trim s) = BigInt s
   \<and> (ds \<noteq> [] \<and> list_all isDecDigit ds \<longrightarrow>
        BigInt ds = Inr (decimal_value ds)
      \<and> BigInt (CHR ''+'' # ds) = Inr (decimal_value ds)
      \<and> BigInt (CHR ''-'' # ds) = Inr (- decimal_value ds))
   \<and> (hs \<noteq> [] \<and> list_all (isDigitOf 16) hs \<longrightarrow>
        BigInt (''0x'' @ hs) = Inr (radix_value 16 hs)
      \<and> BigInt (''0X'' @ hs) = Inr (radix_value 16 hs))
   \<and> (os \<noteq> [] \<and> list_all (isDigitOf 8) os \<longrightarrow>
        BigInt (''0o'' @ os) = Inr (radix_value 8 os)
      \<and> BigInt (''0O'' @ os) = Inr (radix_value 8 os))
   \<and> (bs \<noteq> [] \<and> list_all (isDigitOf 2) bs \<longrightarrow>
        BigInt (''0b'' @ bs) = Inr (radix_value 2 bs)
      \<and> BigInt (''0B'' @ bs) = Inr (radix_value 2 bs))"
proof -
  have eff: "(offchainStatus st = Some oc \<longrightarrow>
       effectiveCostBasis st = parseWeiString (oc_costBasis oc)
     \<and> effectiveSoldValue st = parseWeiString (oc_soldValue oc)
     \<and> effectiveHoldingValue st = parseWeiString (oc_currentHoldingValue oc)
     \<and> effectiveLossAmount st = parseWeiString (oc_lossAmount oc))
   \<and> (offchainStatus st = None \<longrightarrow>
       effectiveCostBasis st = costBasis (lossSnapshot st)
     \<and> effectiveSoldValue st = soldValue (lossSnapshot st)
     \<and> effectiveHoldingValue st = holdingValue st
     \<and> effectiveLossAmount st = (if valid (cachedLoss st) then loss (cachedLoss st) else 0))"
    by (simp add: effectiveCostBasis_def effectiveSoldValue_def effectiveHoldingValue_def
        effectiveLossAmount_def offchainCostBasis_def offchainSoldValue_def
        offchainHoldingValue_def offchainLossAmount_def)
  have parse: "parseWeiString None = 0 \<and> parseWeiString (Some []) = 0
      \<and> (BigInt s = Inl e \<longrightarrow> parseWeiString (Some s) = 0)
      \<and> (s \<noteq> [] \<and> BigInt s = Inr n \<longrightarrow> parseWeiString (Some s) = n)"
    by (simp add: parseWeiString_def)
  have dec: "ds \<noteq> [] \<and> list_all isDecDigit ds \<longrightarrow>
        BigInt ds = Inr (decimal_value ds)
      \<and> BigInt (CHR ''+'' # ds) = Inr (decimal_value ds)
      \<and> BigInt (CHR ''-'' # ds) = Inr (- decimal_value ds)"
    by (simp add: BigInt_dec BigInt_signed)
  have hex: "hs \<noteq> [] \<and> list_all (isDigitOf 16) hs \<longrightarrow>
        BigInt (''0x'' @ hs) = Inr (radix_value 16 hs)
      \<and> BigInt (''0X'' @ hs) = Inr (radix_value 16 hs)"
    using BigInt_prefixed [of hs 16 "''0x''"] BigInt_prefixed [of hs 16 "''0X''"] by simp
  have oct: "os \<noteq> [] \<and> list_all (isDigitOf 8) os \<longrightarrow>
        BigInt (''0o'' @ os) = Inr (radix_value 8 os)
      \<and> BigInt (''0O'' @ os) = Inr (radix_value 8 os)"
    using BigInt_prefixed [of os 8 "''0o''"] BigInt_prefixed [of os 8 "''0O''"] by simp
  have bin: "bs \<noteq> [] \<and> list_all (isDigitOf 2) bs \<longrightarrow>
        BigInt (''0b'' @ bs) = Inr (radix_value 2 bs)
      \<and> BigInt (''0B'' @ bs) = Inr (radix_value 2 bs)"
    using BigInt_prefixed [of bs 2 "''0b''"] BigInt_prefixed [of bs 2 "''0B''"] by simp
  show ?thesis using eff parse BigInt_trim [of s] dec hex oct bin by blast
qed


theorem reconcile_precedence_witness:
  "effectiveCostBasis
     \<lparr>lossSnapshot = \<lparr>costBasis = 5, soldValue = 6, dividendReceived = 0\<rparr>,
      cachedLoss = \<lparr>loss = 7, valid = True\<rparr>, holdingValue = 8,
      offchainStatus = Some \<lparr>oc_costBasis = Some ''100'', oc_soldValue = Some ''abc'',
        oc_currentHoldingValue = None, oc_lossAmount = Some ''0x10'', oc_canClaim = None,
        oc_minHoldingValue = None, oc_minLossValue = None\<rparr>\<rparr> = 100
   \<and> effectiveLossAmount
     \<lparr>lossSnapshot = \<lparr>costBasis = 5, soldValue = 6, dividendReceived = 0\<rparr>,
      cachedLoss = \<lparr>loss = 7, valid = True\<rparr>, holdingValue = 8,
      offchainStatus = Some \<lparr>oc_costBasis = Some ''100'', oc_soldValue = Some ''abc'',
        oc_currentHoldingValue = None, oc_lossAmount = Some ''0x10'', oc_canClaim = None,
        oc_minHoldingValue = None, oc_minLossValue = None\<rparr>\<rparr> = 16
   \<and> effectiveSoldValue
     \<lparr>lossSnapshot = \<lparr>costBasis = 5, soldValue = 6, dividendReceived = 0\<rparr>,
      cachedLoss = \<lparr>loss = 7, valid = True\<rparr>, holdingValue = 8,
      offchainStatus = Some \<lparr>oc_costBasis = Some ''100'', oc_soldValue = Some ''abc'',
        oc_currentHoldingValue = None, oc_lossAmount = Some ''0x10'', oc_canClaim = None,
        oc_minHoldingValue = None, oc_minLossValue = None\<rparr>\<rparr> = 0
   \<and> effectiveHoldingValue
     \<lparr>lossSnapshot = \<lparr>costBasis = 5, soldValue = 6, dividendReceived = 0\<rparr>,
      cachedLoss = \<lparr>loss = 7, valid = True\<rparr>, holdingValue = 8,
      offchainStatus = Some \<lparr>oc_costBasis = Some ''100'', oc_soldValue = Some ''abc'',
        oc_currentHoldingValue = None, oc_lossAmount = Some ''0x10'', oc_canClaim = None,
        oc_minHoldingValue = None, oc_minLossValue = None\<rparr>\<rparr> = 0
   \<and> effectiveLossAmount
     \<lparr>lossSnapshot = \<lparr>costBasis = 5, soldValue = 6, dividendReceived = 0\<rparr>,
      cachedLoss = \<lparr>loss = 7, valid = False\<rparr>, holdingValue = 8,
      offchainStatus = None\<rparr> = 0
   \<and> effectiveCostBasis
     \<lparr>lossSnapshot = \<lparr>costBasis = 5, soldValue = 6, dividendReceived = 0\<rparr>,
      cachedLoss = \<lparr>loss = 7, valid = False\<rparr>, holdingValue = 8,
      offchainStatus = None\<rparr> = 5
   \<and> BigInt ''abc'' = Inl SyntaxError
   \<and> BigInt ''-100'' = Inr (- 100)
   \<and> BigInt ''0x1f'' = Inr 31
   \<and> BigInt ''0o17'' = Inr 15
   \<and> BigInt ''0b101'' = Inr 5"
proof -
  let ?oc = "\<lparr>oc_costBasis = Some ''100'', oc_soldValue = Some ''abc'',
        oc_currentHoldingValue = None, oc_lossAmount = Some ''0x10'', oc_canClaim = None,
        oc_minHoldingValue = None, oc_minLossValue = None\<rparr>"
  let ?on = "\<lparr>lossSnapshot = \<lparr>costBasis = 5, soldValue = 6, dividendReceived = 0\<rparr>,
      cachedLoss = \<lparr>loss = 7, valid = True\<rparr>, holdingValue = 8, offchainStatus = Some ?oc\<rparr>"
  let ?off = "\<lparr>lossSnapshot = \<lparr>costBasis = 5, soldValue = 6, dividendReceived = 0\<rparr>,
      cachedLoss = \<lparr>loss = 7, valid = False\<rparr>, holdingValue = 8, offchainStatus = None\<rparr>"
  have present: "offchainStatus ?on = Some ?oc" and absent: "offchainStatus ?off = None"
    by simp_all
  have d: "''100'' \<noteq> [] \<and> list_all isDecDigit ''100''"
    by (simp add: isDecDigit_def code_unit_def)
  have h: "''1f'' \<noteq> [] \<and> list_all (isDigitOf 16) ''1f''"
    by (simp add: isDigitOf_def digitValue_def code_unit_def)
  have o: "''17'' \<noteq> [] \<and> list_all (isDigitOf 8) ''17''"
    by (simp add: isDigitOf_def digitValue_def code_unit_def)
  have b: "''101'' \<noteq> [] \<and> list_all (isDigitOf 2) ''101''"
    by (simp add: isDigitOf_def digitValue_def code_unit_def)
  have vd: "decimal_value ''100'' = 100" by (simp add: decimal_value_def code_unit_def)
  have vh: "radix_value 16 ''1f'' = 31" by (simp add: radix_value_def digitValue_def code_unit_def)
  have vo: "radix_value 8 ''17'' = 15" by (simp add: radix_value_def digitValue_def code_unit_def)
  have vb: "radix_value 2 ''101'' = 5" by (simp add: radix_value_def digitValue_def code_unit_def)
  have err: "BigInt ''abc'' = Inl SyntaxError" by code_simp
  have hex: "''0x10'' \<noteq> [] \<and> BigInt ''0x10'' = Inr 16" by code_simp
  note T1 = reconcile_precedence [where st = ?on and oc = ?oc and s = "''abc''"
      and e = SyntaxError and ds = "''100''" and hs = "''1f''" and os = "''17''"
      and bs = "''101''" and n = 0]
  note T2 = reconcile_precedence [where st = ?off and oc = ?oc and s = "''0x10''"
      and e = SyntaxError and ds = "''100''" and hs = "''1f''" and os = "''17''"
      and bs = "''101''" and n = 16]
  have p_abc: "parseWeiString (Some ''abc'') = 0" using T1 err by blast
  have p_hex: "parseWeiString (Some ''0x10'') = 16" using T2 hex by blast
  have b_dec: "BigInt ''100'' = Inr (decimal_value ''100'')
      \<and> BigInt (CHR ''-'' # ''100'') = Inr (- decimal_value ''100'')"
    using T1 d by blast
  have p_dec: "parseWeiString (Some ''100'') = 100"
    using b_dec vd by (simp add: parseWeiString_def)
  have b_hex: "BigInt (''0x'' @ ''1f'') = Inr (radix_value 16 ''1f'')" using T1 h by blast
  have b_oct: "BigInt (''0o'' @ ''17'') = Inr (radix_value 8 ''17'')" using T1 o by blast
  have b_bin: "BigInt (''0b'' @ ''101'') = Inr (radix_value 2 ''101'')" using T1 b by blast
  have on: "effectiveCostBasis ?on = parseWeiString (oc_costBasis ?oc)
     \<and> effectiveSoldValue ?on = parseWeiString (oc_soldValue ?oc)
     \<and> effectiveHoldingValue ?on = parseWeiString (oc_currentHoldingValue ?oc)
     \<and> effectiveLossAmount ?on = parseWeiString (oc_lossAmount ?oc)"
    using T1 present by blast
  have none: "parseWeiString None = 0" using T1 by blast
  have off: "effectiveCostBasis ?off = costBasis (lossSnapshot ?off)
     \<and> effectiveLossAmount ?off = (if valid (cachedLoss ?off) then loss (cachedLoss ?off) else 0)"
    using T2 absent by blast
  have 1: "effectiveCostBasis ?on = 100" using on p_dec by simp
  have 2: "effectiveLossAmount ?on = 16" using on p_hex by simp
  have 3: "effectiveSoldValue ?on = 0" using on p_abc by simp
  have 4: "effectiveHoldingValue ?on = 0" using on none by simp
  have 5: "effectiveLossAmount ?off = 0" using off by simp
  have 6: "effectiveCostBasis ?off = 5" using off by simp
  have 7: "BigInt ''-100'' = Inr (- 100)" using b_dec vd by simp
  have 8: "BigInt ''0x1f'' = Inr 31" using b_hex vh by simp
  have 9: "BigInt ''0o17'' = Inr 15" using b_oct vo by simp
  have 10: "BigInt ''0b101'' = Inr 5" using b_bin vb by simp
  show ?thesis using 1 2 3 4 5 6 err 7 8 9 10 by (intro conjI)
qed

text \<open>
  C5 as stated fails for a field that \<^verbatim>\<open>BigInt\<close> reads and that is not a decimal string:
  the cost basis \<^verbatim>\<open>0x10\<close> is shown as 16, where a decimal parser fails and gives 0.
\<close>

theorem reconcile_not_decimal:
  "effectiveCostBasis
     \<lparr>lossSnapshot = \<lparr>costBasis = 5, soldValue = 6, dividendReceived = 0\<rparr>,
      cachedLoss = \<lparr>loss = 7, valid = True\<rparr>, holdingValue = 8,
      offchainStatus = Some \<lparr>oc_costBasis = Some ''0x10'', oc_soldValue = None,
        oc_currentHoldingValue = None, oc_lossAmount = None, oc_canClaim = None,
        oc_minHoldingValue = None, oc_minLossValue = None\<rparr>\<rparr> = 16
   \<and> decimal_or_zero (Some ''0x10'') = 0"
  by code_simp

lemma run_offchain_None_aux:
  "offchainStatus st = None \<Longrightarrow> offchainStatus (foldl apply_event st evs) = None"
proof (induction evs arbitrary: st)
  case Nil
  then show ?case by simp
next
  case (Cons ev evs)
  have "offchainStatus (apply_event st ev) = None"
    by (cases ev) (simp_all add: fetchOffchainStatus_def loadContractData_def Let_def
        split: loss_group.split)
  then show ?case using Cons.IH by simp
qed

lemma run_offchain_None: "offchainStatus (run evs) = None"
  by (simp add: run_def run_offchain_None_aux initial_state_def)

text \<open>
  C10. \<^verbatim>\<open>fetchOffchainStatus\<close> leaves the snapshot \<^verbatim>\<open>null\<close> whatever the state was, also
  when a snapshot was present, and so does \<^verbatim>\<open>loadContractData\<close>, which calls it; after
  the fetch each effective figure is the on-chain one. The snapshot is \<^verbatim>\<open>null\<close> in the
  initial state too, hence after every sequence of runs of the two functions, the only
  writers of the reconciled state: the off-chain branch of the reconciliation is never
  taken.
\<close>

theorem offchain_never_present:
  "offchainStatus (fetchOffchainStatus st) = None
   \<and> offchainStatus (loadContractData g st) = None
   \<and> effectiveCostBasis (fetchOffchainStatus st) = costBasis (lossSnapshot st)
   \<and> effectiveSoldValue (fetchOffchainStatus st) = soldValue (lossSnapshot st)
   \<and> effectiveHoldingValue (fetchOffchainStatus st) = holdingValue st
   \<and> effectiveLossAmount (fetchOffchainStatus st) =
       (if valid (cachedLoss st) then loss (cachedLoss st) else 0)
   \<and> offchainStatus (run evs) = None
   \<and> effectiveCostBasis (run evs) = costBasis (lossSnapshot (run evs))
   \<and> effectiveSoldValue (run evs) = soldValue (lossSnapshot (run evs))
   \<and> effectiveHoldingValue (run evs) = holdingValue (run evs)
   \<and> effectiveLossAmount (run evs) =
       (if valid (cachedLoss (run evs)) then loss (cachedLoss (run evs)) else 0)"
proof -
  have f: "offchainStatus (fetchOffchainStatus st) = None"
    by (simp add: fetchOffchainStatus_def)
  have l: "offchainStatus (loadContractData g st) = None"
    by (simp add: loadContractData_def fetchOffchainStatus_def Let_def split: loss_group.split)
  have fe: "effectiveCostBasis (fetchOffchainStatus st) = costBasis (lossSnapshot st)
   \<and> effectiveSoldValue (fetchOffchainStatus st) = soldValue (lossSnapshot st)
   \<and> effectiveHoldingValue (fetchOffchainStatus st) = holdingValue st
   \<and> effectiveLossAmount (fetchOffchainStatus st) =
       (if valid (cachedLoss st) then loss (cachedLoss st) else 0)"
    by (simp add: fetchOffchainStatus_def effectiveCostBasis_def effectiveSoldValue_def
        effectiveHoldingValue_def effectiveLossAmount_def)
  have r: "offchainStatus (run evs) = None
   \<and> effectiveCostBasis (run evs) = costBasis (lossSnapshot (run evs))
   \<and> effectiveSoldValue (run evs) = soldValue (lossSnapshot (run evs))
   \<and> effectiveHoldingValue (run evs) = holdingValue (run evs)
   \<and> effectiveLossAmount (run evs) =
       (if valid (cachedLoss (run evs)) then loss (cachedLoss (run evs)) else 0)"
    by (simp add: run_offchain_None effectiveCostBasis_def effectiveSoldValue_def
        effectiveHoldingValue_def effectiveLossAmount_def)
  show ?thesis using f l fe r by blast
qed

theorem offchain_never_present_witness:
  "effectiveCostBasis
     \<lparr>lossSnapshot = \<lparr>costBasis = 5, soldValue = 6, dividendReceived = 0\<rparr>,
      cachedLoss = \<lparr>loss = 7, valid = False\<rparr>, holdingValue = 8,
      offchainStatus = Some \<lparr>oc_costBasis = Some ''100'', oc_soldValue = Some ''200'',
        oc_currentHoldingValue = Some ''300'', oc_lossAmount = Some ''400'',
        oc_canClaim = None, oc_minHoldingValue = None, oc_minLossValue = None\<rparr>\<rparr> = 100
   \<and> offchainStatus (fetchOffchainStatus
     \<lparr>lossSnapshot = \<lparr>costBasis = 5, soldValue = 6, dividendReceived = 0\<rparr>,
      cachedLoss = \<lparr>loss = 7, valid = False\<rparr>, holdingValue = 8,
      offchainStatus = Some \<lparr>oc_costBasis = Some ''100'', oc_soldValue = Some ''200'',
        oc_currentHoldingValue = Some ''300'', oc_lossAmount = Some ''400'',
        oc_canClaim = None, oc_minHoldingValue = None, oc_minLossValue = None\<rparr>\<rparr>) = None
   \<and> effectiveCostBasis (fetchOffchainStatus
     \<lparr>lossSnapshot = \<lparr>costBasis = 5, soldValue = 6, dividendReceived = 0\<rparr>,
      cachedLoss = \<lparr>loss = 7, valid = False\<rparr>, holdingValue = 8,
      offchainStatus = Some \<lparr>oc_costBasis = Some ''100'', oc_soldValue = Some ''200'',
        oc_currentHoldingValue = Some ''300'', oc_lossAmount = Some ''400'',
        oc_canClaim = None, oc_minHoldingValue = None, oc_minLossValue = None\<rparr>\<rparr>) = 5
   \<and> effectiveLossAmount (fetchOffchainStatus
     \<lparr>lossSnapshot = \<lparr>costBasis = 5, soldValue = 6, dividendReceived = 0\<rparr>,
      cachedLoss = \<lparr>loss = 7, valid = False\<rparr>, holdingValue = 8,
      offchainStatus = Some \<lparr>oc_costBasis = Some ''100'', oc_soldValue = Some ''200'',
        oc_currentHoldingValue = Some ''300'', oc_lossAmount = Some ''400'',
        oc_canClaim = None, oc_minHoldingValue = None, oc_minLossValue = None\<rparr>\<rparr>) = 0
   \<and> offchainStatus (loadContractData NotReached
     \<lparr>lossSnapshot = \<lparr>costBasis = 5, soldValue = 6, dividendReceived = 0\<rparr>,
      cachedLoss = \<lparr>loss = 7, valid = False\<rparr>, holdingValue = 8,
      offchainStatus = Some \<lparr>oc_costBasis = Some ''100'', oc_soldValue = Some ''200'',
        oc_currentHoldingValue = Some ''300'', oc_lossAmount = Some ''400'',
        oc_canClaim = None, oc_minHoldingValue = None, oc_minLossValue = None\<rparr>\<rparr>) = None
   \<and> effectiveCostBasis (run [Load (LossRead \<lparr>costBasis = 5, soldValue = 6, dividendReceived = 0\<rparr>
        \<lparr>loss = 7, valid = False\<rparr> (Some 8)), FetchOffchain]) = 5
   \<and> effectiveLossAmount (run [Load (LossRead \<lparr>costBasis = 5, soldValue = 6, dividendReceived = 0\<rparr>
        \<lparr>loss = 7, valid = False\<rparr> (Some 8)), FetchOffchain]) = 0"
proof -
  let ?st = "\<lparr>lossSnapshot = \<lparr>costBasis = 5, soldValue = 6, dividendReceived = 0\<rparr>,
      cachedLoss = \<lparr>loss = 7, valid = False\<rparr>, holdingValue = 8,
      offchainStatus = Some \<lparr>oc_costBasis = Some ''100'', oc_soldValue = Some ''200'',
        oc_currentHoldingValue = Some ''300'', oc_lossAmount = Some ''400'',
        oc_canClaim = None, oc_minHoldingValue = None, oc_minLossValue = None\<rparr>\<rparr>"
  let ?evs = "[Load (LossRead \<lparr>costBasis = 5, soldValue = 6, dividendReceived = 0\<rparr>
        \<lparr>loss = 7, valid = False\<rparr> (Some 8)), FetchOffchain]"
  note T = offchain_never_present [of ?st NotReached ?evs]
  have before: "effectiveCostBasis ?st = 100" by code_simp
  have r: "lossSnapshot (run ?evs) = \<lparr>costBasis = 5, soldValue = 6, dividendReceived = 0\<rparr>
      \<and> cachedLoss (run ?evs) = \<lparr>loss = 7, valid = False\<rparr>"
    by (simp add: run_def initial_state_def loadContractData_def fetchOffchainStatus_def)
  have 1: "offchainStatus (fetchOffchainStatus ?st) = None" using T by blast
  have 2: "effectiveCostBasis (fetchOffchainStatus ?st) = costBasis (lossSnapshot ?st)"
    using T by blast
  have 3: "effectiveLossAmount (fetchOffchainStatus ?st)
      = (if valid (cachedLoss ?st) then loss (cachedLoss ?st) else 0)" using T by blast
  have 4: "offchainStatus (loadContractData NotReached ?st) = None" using T by blast
  have 5: "effectiveCostBasis (run ?evs) = costBasis (lossSnapshot (run ?evs))"
    using T by blast
  have 6: "effectiveLossAmount (run ?evs)
      = (if valid (cachedLoss (run ?evs)) then loss (cachedLoss (run ?evs)) else 0)"
    using T by blast
  have e2: "effectiveCostBasis (fetchOffchainStatus ?st) = 5" using 2 by simp
  have e3: "effectiveLossAmount (fetchOffchainStatus ?st) = 0" using 3 by simp
  have e5: "effectiveCostBasis (run ?evs) = 5" using 5 r by simp
  have e6: "effectiveLossAmount (run ?evs) = 0" using 6 r by simp
  show ?thesis using before 1 e2 e3 4 e5 e6 by (intro conjI)
qed

section \<open>Properties of the transaction handlers\<close>

lemma after_simp: "after done (out, acts, st) = (out, done @ acts, st)"
  by (simp add: after_def)

lemma after_parts:
  "fst (after done res) = fst res"
  "fst (snd (after done res)) = done @ fst (snd res)"
  "snd (snd (after done res)) = snd (snd res)"
  by (cases res; simp add: after_def)+

lemma caught_parts:
  "fst (caught res) = (if fst res = Threw then Returned else fst res)"
  "fst (snd (caught res)) = fst (snd res)"
  "snd (snd (caught res)) =
     (if fst res = Threw then (snd (snd res))\<lparr>isPending := False, lastAction := None\<rparr>
      else snd (snd res))"
  by (cases res; simp add: caught_def)+

lemma submitBurn_calls:
  "\<exists>rest. fst (snd (submitBurn ctx rounds st))
     = SubmitBurn (parsedBurnAmount ctx)
         (burnInviterAddr (inviter ctx) (inviterOnchain ctx) (rootInviter ctx)) # rest
     \<and> SubmitApprove \<notin> set rest"
  by (cases rounds) (auto simp add: submitBurn_def Let_def split: burn_answer.split option.split)

lemma handleApprove_first_call:
  assumes "signer ctx" "truthy (tokenAddress ctx)"
  shows "\<exists>rest. fst (snd (handleApprove ctx rounds st)) = SubmitApprove # rest"
proof (cases rounds)
  case Nil
  then show ?thesis using assms by (simp add: handleApprove.simps [of ctx "[]" st] Let_def)
next
  case (Cons r rs)
  show ?thesis
    using assms Cons
    by (simp add: handleApprove.simps [of ctx "r # rs" st] Let_def after_parts)
qed

lemma cached_allowance_unused:
  "handleApprove (ctx\<lparr>allowance := cached\<rparr>) rounds st = handleApprove ctx rounds st"
  "handleBurn (ctx\<lparr>allowance := cached\<rparr>) rounds st = handleBurn ctx rounds st"
proof (induction ctx rounds st and ctx rounds st rule: handleApprove_handleBurn.induct)
  case (1 ctx rounds st)
  show ?case
  proof (cases rounds)
    case Nil
    then show ?thesis by (simp add: handleApprove.simps [of _ "[]"])
  next
    case (Cons r rs)
    show ?thesis
    proof (cases "\<not> signer ctx \<or> \<not> truthy (tokenAddress ctx) \<or> \<not> approveTx r")
      case True
      then show ?thesis
        using Cons by (auto simp add: handleApprove.simps [of _ "r # rs"] Let_def)
    next
      case False
      then show ?thesis
        using Cons 1 [of "st\<lparr>isPending := True, lastAction := Some ''approve''\<rparr>" r rs]
        by (simp add: handleApprove.simps [of _ "r # rs"] Let_def)
    qed
  qed
next
  case (2 ctx rounds st)
  have sb: "submitBurn (ctx\<lparr>allowance := cached\<rparr>) rounds st = submitBurn ctx rounds st"
    by (simp add: submitBurn_def)
  show ?case
  proof (cases rounds)
    case Nil
    then show ?thesis using sb by (simp add: handleBurn.simps [of _ "[]"])
  next
    case (Cons r rs)
    show ?thesis
    proof (cases "signer ctx \<and> truthy (tokenAddress ctx)
        \<and> (\<exists>a. allowanceRead r = Some a \<and> a < parsedBurnAmount ctx)")
      case True
      then obtain a where a: "allowanceRead r = Some a" "a < parsedBurnAmount ctx" by auto
      then show ?thesis
        using True Cons 2 [of r rs a] by (simp add: handleBurn.simps [of _ "r # rs"])
    next
      case False
      then show ?thesis
        using Cons sb by (auto simp add: handleBurn.simps [of _ "r # rs"] split: option.split)
    qed
  qed
qed

text \<open>
  What \<^verbatim>\<open>handleBurn\<close> itself does when the allowance read answers: with at least the
  requested amount the call after the read is the burn and no approval is submitted;
  with less, the call after the read is the approval. The allowance stored by the poll
  is not used.
\<close>

lemma handleBurn_allowance_check:
  assumes "signer ctx" "truthy (tokenAddress ctx)" "allowanceRead r = Some a"
  shows
    "(parsedBurnAmount ctx \<le> a \<longrightarrow>
        handleBurn ctx (r # rs) st = after [ReadAllowance] (submitBurn ctx (r # rs) st)
        \<and> take 2 (fst (snd (handleBurn ctx (r # rs) st)))
            = [ReadAllowance,
               SubmitBurn (parsedBurnAmount ctx)
                 (burnInviterAddr (inviter ctx) (inviterOnchain ctx) (rootInviter ctx))]
        \<and> SubmitApprove \<notin> set (fst (snd (handleBurn ctx (r # rs) st))))
     \<and> (a < parsedBurnAmount ctx \<longrightarrow>
        handleBurn ctx (r # rs) st = after [ReadAllowance] (handleApprove ctx rs st)
        \<and> take 2 (fst (snd (handleBurn ctx (r # rs) st))) = [ReadAllowance, SubmitApprove])
     \<and> handleBurn (ctx\<lparr>allowance := cached\<rparr>) (r # rs) st = handleBurn ctx (r # rs) st"
proof (intro conjI impI)
  assume h: "parsedBurnAmount ctx \<le> a"
  show eq: "handleBurn ctx (r # rs) st = after [ReadAllowance] (submitBurn ctx (r # rs) st)"
    using assms h by (simp add: handleBurn.simps [of ctx "r # rs" st])
  obtain rest where rest: "fst (snd (submitBurn ctx (r # rs) st))
     = SubmitBurn (parsedBurnAmount ctx)
         (burnInviterAddr (inviter ctx) (inviterOnchain ctx) (rootInviter ctx)) # rest"
     "SubmitApprove \<notin> set rest"
    using submitBurn_calls [of ctx "r # rs" st] by auto
  show "take 2 (fst (snd (handleBurn ctx (r # rs) st)))
            = [ReadAllowance,
               SubmitBurn (parsedBurnAmount ctx)
                 (burnInviterAddr (inviter ctx) (inviterOnchain ctx) (rootInviter ctx))]"
    using rest by (simp add: eq after_parts)
  show "SubmitApprove \<notin> set (fst (snd (handleBurn ctx (r # rs) st)))"
    using rest by (simp add: eq after_parts)
next
  assume h: "a < parsedBurnAmount ctx"
  show eq: "handleBurn ctx (r # rs) st = after [ReadAllowance] (handleApprove ctx rs st)"
    using assms h by (simp add: handleBurn.simps [of ctx "r # rs" st])
  obtain rest where "fst (snd (handleApprove ctx rs st)) = SubmitApprove # rest"
    using handleApprove_first_call [of ctx rs st] assms by auto
  then show "take 2 (fst (snd (handleBurn ctx (r # rs) st))) = [ReadAllowance, SubmitApprove]"
    by (simp add: eq after_parts)
next
  show "handleBurn (ctx\<lparr>allowance := cached\<rparr>) (r # rs) st = handleBurn ctx (r # rs) st"
    by (rule cached_allowance_unused)
qed



lemma handleClaim_resets:
  "handleClaim kind True claimTx st = (calls, st') \<Longrightarrow>
     isPending st' = False \<and> lastAction st' = None"
  by (auto simp add: handleClaim_def Let_def split: if_splits)

lemma handleClaim_no_signer: "handleClaim kind False claimTx st = ([], st)"
  by (simp add: handleClaim_def)

lemma submitBurn_settled:
  "fst (submitBurn ctx rounds st) \<noteq> Suspended \<Longrightarrow>
     isPending (snd (snd (submitBurn ctx rounds st))) = False
     \<and> lastAction (snd (snd (submitBurn ctx rounds st))) = None"
  by (cases rounds) (auto simp add: submitBurn_def Let_def split: burn_answer.split option.split)

lemma handleApprove_never_throws: "fst (handleApprove ctx rounds st) \<noteq> Threw"
  by (cases rounds)
    (auto simp add: handleApprove.simps [of ctx _ st] Let_def after_parts caught_parts)

text \<open>
  \<^verbatim>\<open>handleApprove\<close> and \<^verbatim>\<open>handleBurn\<close> leave the state idle on every path on which they
  end, by return or by rejection.
\<close>

lemma approve_burn_returns_idle:
  "fst (handleApprove ctx rounds st) \<noteq> Suspended \<Longrightarrow> signer ctx \<Longrightarrow>
     truthy (tokenAddress ctx) \<Longrightarrow>
     isPending (snd (snd (handleApprove ctx rounds st))) = False
     \<and> lastAction (snd (snd (handleApprove ctx rounds st))) = None"
  "fst (handleBurn ctx rounds st) \<noteq> Suspended \<Longrightarrow> signer ctx \<Longrightarrow>
     isPending (snd (snd (handleBurn ctx rounds st))) = False
     \<and> lastAction (snd (snd (handleBurn ctx rounds st))) = None"
proof (induction ctx rounds st and ctx rounds st rule: handleApprove_handleBurn.induct)
  case (1 ctx rounds st)
  show ?case
  proof (cases rounds)
    case Nil
    then show ?thesis using "1.prems" by (simp add: handleApprove.simps [of _ "[]"] Let_def)
  next
    case (Cons r rs)
    show ?thesis
    proof (cases "approveTx r")
      case True
      then show ?thesis
        using Cons "1.prems"
          "1.IH" [of "st\<lparr>isPending := True, lastAction := Some ''approve''\<rparr>" r rs]
        by (auto simp add: handleApprove.simps [of _ "r # rs"] Let_def after_parts
            caught_parts split: if_splits)
    next
      case False
      then show ?thesis
        using Cons "1.prems" by (simp add: handleApprove.simps [of _ "r # rs"] Let_def)
    qed
  qed
next
  case (2 ctx rounds st)
  show ?case
  proof (cases "truthy (tokenAddress ctx)")
    case noToken: False
    then show ?thesis
      using "2.prems" submitBurn_settled [of ctx rounds st]
      by (simp add: handleBurn.simps [of _ rounds])
  next
    case token: True
    show ?thesis
    proof (cases rounds)
      case Nil
      then show ?thesis using "2.prems" token by (simp add: handleBurn.simps [of _ "[]"])
    next
      case (Cons r rs)
      show ?thesis
      proof (cases "\<exists>a. allowanceRead r = Some a \<and> a < parsedBurnAmount ctx")
        case True
        then obtain a where a: "allowanceRead r = Some a" "a < parsedBurnAmount ctx" by auto
        then show ?thesis
          using Cons token "2.prems" "2.IH" [of r rs a]
          by (simp add: handleBurn.simps [of _ "r # rs"] after_parts)
      next
        case False
        then have "handleBurn ctx rounds st = after [ReadAllowance] (submitBurn ctx (r # rs) st)"
          using Cons token "2.prems"
          by (auto simp add: handleBurn.simps [of _ "r # rs"] split: option.split)
        then show ?thesis
          using "2.prems" submitBurn_settled [of ctx "r # rs" st] by (simp add: after_parts)
      qed
    qed
  qed
qed

text \<open>
  They end as soon as one round of answers does not send \<^verbatim>\<open>handleBurn\<close> back to the
  approval.
\<close>

lemma approve_burn_returns:
  "list_ex (\<lambda>r. case allowanceRead r of None \<Rightarrow> True | Some a \<Rightarrow> parsedBurnAmount ctx \<le> a)
     rounds \<Longrightarrow> fst (handleApprove ctx rounds st) \<noteq> Suspended"
  "list_ex (\<lambda>r. case allowanceRead r of None \<Rightarrow> True | Some a \<Rightarrow> parsedBurnAmount ctx \<le> a)
     rounds \<Longrightarrow> fst (handleBurn ctx rounds st) \<noteq> Suspended"
proof (induction ctx rounds st and ctx rounds st rule: handleApprove_handleBurn.induct)
  case (1 ctx rounds st)
  then obtain r rs where rounds: "rounds = r # rs" by (cases rounds) auto
  show ?case
    using rounds "1.prems"
      "1.IH" [of "st\<lparr>isPending := True, lastAction := Some ''approve''\<rparr>" r rs]
    by (simp add: handleApprove.simps [of _ "r # rs"] Let_def after_parts caught_parts)
next
  case (2 ctx rounds st)
  then obtain r rs where rounds: "rounds = r # rs" by (cases rounds) auto
  have sb: "fst (submitBurn ctx (r # rs) st) \<noteq> Suspended"
    by (simp add: submitBurn_def Let_def split: burn_answer.split option.split)
  show ?case
  proof (cases "\<exists>a. allowanceRead r = Some a \<and> a < parsedBurnAmount ctx")
    case True
    then obtain a where a: "allowanceRead r = Some a" "a < parsedBurnAmount ctx" by auto
    then have "list_ex (\<lambda>r. case allowanceRead r of None \<Rightarrow> True
        | Some a \<Rightarrow> parsedBurnAmount ctx \<le> a) rs"
      using rounds "2.prems" by simp
    then show ?thesis
      using rounds a sb "2.IH" [of r rs a]
      by (simp add: handleBurn.simps [of _ "r # rs"] after_parts)
  next
    case False
    then show ?thesis
      using rounds sb
      by (auto simp add: handleBurn.simps [of _ "r # rs"] after_parts split: option.split)
  qed
qed

lemma claim_handlers_reset:
  "snd (handleClaimBurnBNB True claimTx st) = st\<lparr>isPending := False, lastAction := None\<rparr>"
  "snd (handleClaimBurnToken True claimTx st) = st\<lparr>isPending := False, lastAction := None\<rparr>"
  "snd (handleClaimLossDiv True claimTx st) = st\<lparr>isPending := False, lastAction := None\<rparr>"
  "snd (handleClaimNftDiv True claimTx st) = st\<lparr>isPending := False, lastAction := None\<rparr>"
  "snd (handleClaimNFT True claimTx st) = st\<lparr>isPending := False, lastAction := None\<rparr>"
  by (simp_all add: handleClaimBurnBNB_def handleClaimBurnToken_def handleClaimLossDiv_def
      handleClaimNftDiv_def handleClaimNFT_def handleClaim_def Let_def)

lemma submitSubscribe_state:
  "snd (submitSubscribe checksumOk ctx env st)
     = st\<lparr>isPending := False, lastAction := Some ''subscribe''\<rparr>"
  by (simp add: submitSubscribe_def Let_def)

text \<open>
  C7. Every handler is claimed to clear the pending flag and to reset the active
  action. A subscription that goes through leaves \<^verbatim>\<open>isPending\<close> false but \<^verbatim>\<open>lastAction\<close>
  at \<^verbatim>\<open>subscribe\<close>: the \<^verbatim>\<open>finally\<close> block of \<^verbatim>\<open>handleSubscribe\<close> has no
  \<^verbatim>\<open>setLastAction(null)\<close>, which the other handlers have.
\<close>

theorem handleSubscribe_keeps_lastAction:
  "handleSubscribe (\<lambda>s. True)
     \<lparr>isConnected = True, chainId = 56, hasSigner = True,
      address = Some ''0x1111111111111111111111111111111111111111'', nftSubPrice = 100,
      nftSubscription = ''0xC1Cc75899e689d117e6Bc942C4c4Cb508b194B7C'',
      nftInviterOnchain = None, nftSubInviter = [], fromUrl = [], nftSubRootInviter = []\<rparr>
     \<lparr>switchNetworkOk = True, balanceRead = Some 500, subscribeTx = True\<rparr> idle
   = ([ReadBalance, SubmitSubscribe ZeroAddress, Alert, RefreshSubscribed],
      \<lparr>isPending = False, lastAction = Some ''subscribe''\<rparr>)"
  by (simp add: handleSubscribe_def submitSubscribe_def subscribeInviterAddress_def truthy_def
      idle_def ZeroAddress_def)

text \<open>
  C1. The bound on-chain inviter is claimed to win in both flows. In the burn flow the
  state variable \<^verbatim>\<open>inviter\<close>, which the mount effect fills from the URL, is tested
  first: with a bound inviter \<^verbatim>\<open>0x11...\<close> and \<^verbatim>\<open>inviter\<close> at \<^verbatim>\<open>0x22...\<close> the burn is
  sent with \<^verbatim>\<open>0x22...\<close>.
\<close>

theorem burn_inviter_before_onchain:
  "burnInviterAddr ''0x2222222222222222222222222222222222222222''
     (Some ''0x1111111111111111111111111111111111111111'')
     (Some ''0x3333333333333333333333333333333333333333'')
   = ''0x2222222222222222222222222222222222222222''
   \<and> burnInviterAddr (urlRefEffect (Some ''0x2222222222222222222222222222222222222222'') [])
     (Some ''0x1111111111111111111111111111111111111111'')
     (Some ''0x3333333333333333333333333333333333333333'')
   = ''0x2222222222222222222222222222222222222222''"
  by (simp add: burnInviterAddr_def urlRefEffect_def startsWith_def)

text \<open>
  C9. A URL value that is not a well-formed address is claimed never to be used as
  inviter. \<^verbatim>\<open>0xhello\<close> is rejected by \<^verbatim>\<open>ethers.isAddress\<close> whatever the checksum test,
  and the subscription flow drops it, but the mount effect only tests the prefix
  \<^verbatim>\<open>0x\<close>, stores it in \<^verbatim>\<open>inviter\<close>, and the burn flow passes it to \<^verbatim>\<open>burn\<close>.
\<close>

theorem malformed_url_ref_in_burn:
  "\<not> isAddress (\<lambda>s. True) ''0xhello''
   \<and> inviterFromUrl (\<lambda>s. True) (Some ''0xhello'') = []
   \<and> urlRefEffect (Some ''0xhello'') [] = ''0xhello''
   \<and> burnInviterAddr (urlRefEffect (Some ''0xhello'') [])
         (Some ''0x1111111111111111111111111111111111111111'') None = ''0xhello''"
  by (simp add: isAddress_def hexShape_def icapShape_def inviterFromUrl_def urlRefEffect_def
      burnInviterAddr_def startsWith_def)

lemma subscribe_inviter_order:
  "a \<noteq> [] \<Longrightarrow> a \<noteq> ZeroAddress \<Longrightarrow>
     subscribeInviterAddress ck (Some a) manual url rootInv = a"
  "\<not> (truthy onchain \<and> onchain \<noteq> Some ZeroAddress) \<Longrightarrow> manual \<noteq> [] \<Longrightarrow>
     isAddress ck manual \<Longrightarrow> subscribeInviterAddress ck onchain manual url rootInv = manual"
  "\<not> (truthy onchain \<and> onchain \<noteq> Some ZeroAddress) \<Longrightarrow>
     \<not> (manual \<noteq> [] \<and> isAddress ck manual) \<Longrightarrow> url \<noteq> [] \<Longrightarrow>
     subscribeInviterAddress ck onchain manual url rootInv = url"
  "\<not> (truthy onchain \<and> onchain \<noteq> Some ZeroAddress) \<Longrightarrow>
     \<not> (manual \<noteq> [] \<and> isAddress ck manual) \<Longrightarrow> url = [] \<Longrightarrow> rootInv \<noteq> [] \<Longrightarrow>
     isAddress ck rootInv \<Longrightarrow> subscribeInviterAddress ck onchain manual url rootInv = rootInv"
  "\<not> (truthy onchain \<and> onchain \<noteq> Some ZeroAddress) \<Longrightarrow>
     \<not> (manual \<noteq> [] \<and> isAddress ck manual) \<Longrightarrow> url = [] \<Longrightarrow>
     \<not> (rootInv \<noteq> [] \<and> isAddress ck rootInv) \<Longrightarrow>
     subscribeInviterAddress ck onchain manual url rootInv = ZeroAddress"
  by (auto simp add: subscribeInviterAddress_def truthy_def split: option.splits)

lemma burn_inviter_order:
  "manual \<noteq> [] \<Longrightarrow> startsWith manual ''0x'' \<Longrightarrow>
     burnInviterAddr manual onchain rootInv = manual"
  "\<not> (manual \<noteq> [] \<and> startsWith manual ''0x'') \<Longrightarrow> a \<noteq> [] \<Longrightarrow> a \<noteq> ZeroAddress \<Longrightarrow>
     burnInviterAddr manual (Some a) rootInv = a"
  "\<not> (manual \<noteq> [] \<and> startsWith manual ''0x'') \<Longrightarrow>
     \<not> (truthy onchain \<and> onchain \<noteq> Some ZeroAddress) \<Longrightarrow> b \<noteq> [] \<Longrightarrow> b \<noteq> ZeroAddress \<Longrightarrow>
     burnInviterAddr manual onchain (Some b) = b"
  "\<not> (manual \<noteq> [] \<and> startsWith manual ''0x'') \<Longrightarrow>
     \<not> (truthy onchain \<and> onchain \<noteq> Some ZeroAddress) \<Longrightarrow>
     \<not> (truthy rootInv \<and> rootInv \<noteq> Some ZeroAddress) \<Longrightarrow>
     burnInviterAddr manual onchain rootInv = ZeroAddress"
  by (auto simp add: burnInviterAddr_def truthy_def split: option.splits)

lemma inviterFromUrl_well_formed:
  "inviterFromUrl ck ref = [] \<or> (ref = Some (inviterFromUrl ck ref) \<and> isAddress ck (inviterFromUrl ck ref))"
  by (auto simp add: inviterFromUrl_def split: option.splits)

end
